theory Spec2Isabelle
  imports Main
begin

section \<open>IP locator: the multi-provider tracker of \<^verbatim>\<open>locator.py\<close>\<close>

text \<open>
  The development embeds the second class \<^verbatim>\<open>IPLocationTracker\<close> of
  \<^verbatim>\<open>locator.py\<close> (the part after the marker \<^verbatim>\<open>robust ip.py\<close>, lines 140 to 349):
  the address validator, the coordinate-link helper, the three provider normalizers and
  the fallback loop of \<^verbatim>\<open>get_detailed_geolocation\<close>.

  Python exceptions are values of the type \<open>exn\<close>; a function that may raise returns
  \<open>exn + 'a\<close> with \<open>Inl\<close> for the exception. The effects of a lookup (reverse DNS,
  HTTP requests, sleeps) are recorded in a trace of events, in program order.
\<close>

subsection \<open>Python values\<close>

datatype exn = ValueError | IndexError | AttributeError | TypeError | UnicodeError

text \<open>
  A Python float is a binary64 number. It is kept here by the decimal that \<^verbatim>\<open>repr\<close>
  prints for it, the shortest one that reads back as the same number:
  \<open>Finite s m e\<close> stands for the number printed with sign \<open>s\<close>, digits \<open>m\<close> (no
  trailing zero) and decimal exponent \<open>e\<close>, that is \<open>(-1)\<^sup>s * m * 10\<^sup>e\<close>; the two
  zeros are \<open>Finite s 0 0\<close>. Reading a string rounds to binary64 first
  (\<open>to_double\<close>) and then takes that decimal (\<open>shortest\<close>).
\<close>

datatype pyfloat = Finite bool nat int | Infinity bool | NaN

text \<open>
  A value of a decoded JSON object as this program reads it: the providers answer
  with flat objects of numbers, strings, booleans and nulls.
\<close>

datatype pyval = PNone | PBool bool | PInt int | PFloat pyfloat | PStr string

type_synonym pydict = "string \<rightharpoonup> pyval"

text \<open>The literal \<^verbatim>\<open>0.0\<close>.\<close>

definition zero_float :: pyfloat where
  "zero_float = Finite False 0 0"

text \<open>\<^verbatim>\<open>dict.get(key, default)\<close>.\<close>

definition dict_get :: "pydict \<Rightarrow> string \<Rightarrow> pyval \<Rightarrow> pyval" where
  "dict_get d k dflt = (case d k of None \<Rightarrow> dflt | Some v \<Rightarrow> v)"

text \<open>
  \<^verbatim>\<open>v == 0.0\<close>: numbers compare by value across \<^verbatim>\<open>int\<close>, \<^verbatim>\<open>bool\<close> and
  \<^verbatim>\<open>float\<close> (both zeros of a float are equal to \<^verbatim>\<open>0.0\<close>), anything else is unequal.
\<close>

fun eq_zero :: "pyval \<Rightarrow> bool" where
  "eq_zero (PFloat (Finite s m e)) = (m = 0)"
| "eq_zero (PFloat _) = False"
| "eq_zero (PInt i) = (i = 0)"
| "eq_zero (PBool b) = (\<not> b)"
| "eq_zero PNone = False"
| "eq_zero (PStr s) = False"

subsection \<open>Formatting\<close>

definition digit_char :: "nat \<Rightarrow> char" where
  "digit_char d = char_of (of_char (CHR ''0'') + d)"

function str_nat :: "nat \<Rightarrow> string" where
  "str_nat n = (if n < 10 then [digit_char n] else str_nat (n div 10) @ [digit_char (n mod 10)])"
  by pat_completeness auto
termination
  by (relation "measure id") auto

declare str_nat.simps [simp del]

definition str_int :: "int \<Rightarrow> string" where
  "str_int i = (if i < 0 then CHR ''-'' # str_nat (nat (- i)) else str_nat (nat i))"

text \<open>
  \<^verbatim>\<open>repr\<close> of a float: the digits \<open>ds\<close> of the mantissa with the decimal point after
  \<open>decpt\<close> of them; exponent notation when \<open>decpt > 16\<close> or \<open>decpt < -3\<close>, with an
  exponent of at least two digits.
\<close>

definition repr_finite :: "nat \<Rightarrow> int \<Rightarrow> string" where
  "repr_finite m e =
     (if m = 0 then ''0.0''
      else let ds = str_nat m; n = int (length ds); decpt = n + e in
        if decpt > 16 \<or> decpt < -3 then
          (let x = decpt - 1;
               xs = str_nat (nat \<bar>x\<bar>);
               xs' = (if length xs < 2 then CHR ''0'' # xs else xs)
           in [hd ds] @ (if tl ds = [] then [] else CHR ''.'' # tl ds)
              @ ''e'' @ (if x < 0 then ''-'' else ''+'') @ xs')
        else if decpt \<le> 0 then ''0.'' @ replicate (nat (- decpt)) (CHR ''0'') @ ds
        else if decpt \<ge> n then ds @ replicate (nat (decpt - n)) (CHR ''0'') @ ''.0''
        else take (nat decpt) ds @ ''.'' @ drop (nat decpt) ds)"

fun repr_float :: "pyfloat \<Rightarrow> string" where
  "repr_float (Finite s m e) = (if s then ''-'' else '''') @ repr_finite m e"
| "repr_float (Infinity s) = (if s then ''-inf'' else ''inf'')"
| "repr_float NaN = ''nan''"

text \<open>The replacement field \<^verbatim>\<open>{v}\<close> of an f-string: \<^verbatim>\<open>format(v, '')\<close>.\<close>

fun format_val :: "pyval \<Rightarrow> string" where
  "format_val PNone = ''None''"
| "format_val (PBool b) = (if b then ''True'' else ''False'')"
| "format_val (PInt i) = str_int i"
| "format_val (PFloat f) = repr_float f"
| "format_val (PStr s) = s"

subsection \<open>The coordinate-link helper\<close>

definition create_google_maps_link :: "pyval \<Rightarrow> pyval \<Rightarrow> string" where
  "create_google_maps_link latitude longitude =
     (if eq_zero latitude \<and> eq_zero longitude then ''No coordinates available''
      else ''https://www.google.com/maps/search/?api=1&query=''
           @ format_val latitude @ '','' @ format_val longitude)"

subsection \<open>The builtin \<^verbatim>\<open>float\<close> on strings, and \<^verbatim>\<open>str.split\<close>\<close>

definition is_digit :: "char \<Rightarrow> bool" where
  "is_digit c = (48 \<le> (of_char c :: nat) \<and> (of_char c :: nat) \<le> 57)"

definition digit_val :: "char \<Rightarrow> nat" where
  "digit_val c = of_char c - 48"

text \<open>\<^verbatim>\<open>int(s, 10)\<close> on a string of decimal digits.\<close>

definition nat_of_digits :: "string \<Rightarrow> nat" where
  "nat_of_digits s = foldl (\<lambda>a c. 10 * a + digit_val c) 0 s"

text \<open>
  The white space \<^verbatim>\<open>float\<close> drops around an ASCII string: the C locale's
  \<^verbatim>\<open>isspace\<close>.
\<close>

definition is_space :: "char \<Rightarrow> bool" where
  "is_space c = ((of_char c :: nat) \<in> {9, 10, 11, 12, 13, 32})"

definition strip :: "string \<Rightarrow> string" where
  "strip s = rev (dropWhile is_space (rev (dropWhile is_space s)))"

definition lower_char :: "char \<Rightarrow> char" where
  "lower_char c = (if 65 \<le> (of_char c :: nat) \<and> (of_char c :: nat) \<le> 90
                   then char_of ((of_char c :: nat) + 32) else c)"

text \<open>
  Underscores: one is allowed between two digits and is dropped; anywhere else it is a
  syntax error (\<open>None\<close>). The first argument is the character before.
\<close>

fun remove_underscores_from :: "char \<Rightarrow> string \<Rightarrow> string option" where
  "remove_underscores_from prev [] = (if prev = CHR ''_'' then None else Some [])"
| "remove_underscores_from prev (c # cs) =
     (if c = CHR ''_'' then (if is_digit prev then remove_underscores_from c cs else None)
      else if prev = CHR ''_'' \<and> \<not> is_digit c then None
      else map_option ((#) c) (remove_underscores_from c cs))"

definition remove_underscores :: "string \<Rightarrow> string option" where
  "remove_underscores s =
     (if CHR ''_'' \<in> set s then remove_underscores_from (CHR 0x00) s else Some s)"

definition int_of_digits :: "string \<Rightarrow> int" where
  "int_of_digits s = foldl (\<lambda>a c. 10 * a + int (digit_val c)) 0 s"

function strip_zeros :: "nat \<Rightarrow> int \<Rightarrow> nat \<times> int" where
  "strip_zeros m e =
     (if m = 0 then (0, 0)
      else if m mod 10 = 0 then strip_zeros (m div 10) (e + 1)
      else (m, e))"
  by pat_completeness auto
termination
  by (relation "measure fst") auto

declare strip_zeros.simps [simp del]

definition mk_finite :: "bool \<Rightarrow> nat \<Rightarrow> int \<Rightarrow> pyfloat" where
  "mk_finite s m e = (case strip_zeros m e of (m', e') \<Rightarrow> Finite s m' e')"

text \<open>
  Rounding a decimal to binary64. \<open>pw_num b e / pw_den b e\<close> is \<open>b\<^sup>e\<close> for an
  integer \<open>e\<close>; \<open>bitlen\<close> and \<open>declen\<close> count binary and decimal digits.
\<close>

definition pw_num :: "int \<Rightarrow> int \<Rightarrow> int" where
  "pw_num b e = (if 0 \<le> e then b ^ nat e else 1)"

definition pw_den :: "int \<Rightarrow> int \<Rightarrow> int" where
  "pw_den b e = (if 0 \<le> e then 1 else b ^ nat (- e))"

function bitlen :: "int \<Rightarrow> int" where
  "bitlen n = (if n \<le> 0 then 0 else 1 + bitlen (n div 2))"
  by pat_completeness auto
termination
  by (relation "measure nat") auto

declare bitlen.simps [simp del]

function declen :: "int \<Rightarrow> int" where
  "declen n = (if n \<le> 0 then 0 else 1 + declen (n div 10))"
  by pat_completeness auto
termination
  by (relation "measure nat") auto

declare declen.simps [simp del]

text \<open>
  A non-negative binary64 number: zero, infinity, or \<open>q * 2\<^sup>e\<close> with
  \<open>2\<^sup>5\<^sup>2 \<le> q < 2\<^sup>5\<^sup>3\<close>, or \<open>q < 2\<^sup>5\<^sup>2\<close> and \<open>e = -1074\<close> for a subnormal.
\<close>

datatype binary64 = BZero | BInf | BFin int int

text \<open>
  The binary64 number nearest to \<open>M * 10\<^sup>E\<close>, ties to even: overflow gives infinity
  and underflow zero, as \<^verbatim>\<open>float\<close> does.
\<close>

definition to_double :: "int \<Rightarrow> int \<Rightarrow> binary64" where
  "to_double M E =
     (if M \<le> 0 then BZero
      else
        (let N = M * pw_num 10 E;
             D = pw_den 10 E;
             k = bitlen N - bitlen D;
             fl = (if D * pw_num 2 k \<le> N * pw_den 2 k then k else k - 1);
             e2 = max (fl - 52) (- 1074);
             num = N * pw_den 2 e2;
             den = D * pw_num 2 e2;
             q0 = num div den;
             r = num mod den;
             q = (if den < 2 * r \<or> (2 * r = den \<and> q0 mod 2 = 1) then q0 + 1 else q0);
             q' = (if q = 2 ^ 53 then 2 ^ 52 else q);
             e2' = (if q = 2 ^ 53 then e2 + 1 else e2)
         in if 971 < e2' then BInf else if q' = 0 then BZero else BFin q' e2'))"

text \<open>
  The decimals of \<open>k\<close> digits next to \<open>q * 2\<^sup>e\<close>, below and above, where \<open>p\<close> is
  the decimal exponent of its first digit: the one that reads back as the number, the
  nearer one when both do.
\<close>

definition shortest_at :: "int \<Rightarrow> int \<Rightarrow> int \<Rightarrow> int \<Rightarrow> (int \<times> int) option" where
  "shortest_at q e p k =
     (let s = k - 1 - p;
          tn = q * pw_num 2 e * pw_num 10 s;
          td = pw_den 2 e * pw_den 10 s;
          lo = tn div td;
          rem = tn mod td;
          hi = lo + 1;
          lo_ok = (to_double lo (- s) = BFin q e);
          hi_ok = (to_double hi (- s) = BFin q e)
      in if lo_ok \<and> hi_ok
         then Some (if 2 * rem < td then lo
                    else if td < 2 * rem then hi
                    else if lo mod 2 = 0 then lo else hi, - s)
         else if lo_ok then Some (lo, - s)
         else if hi_ok then Some (hi, - s)
         else None)"

fun first_some :: "('a \<Rightarrow> 'b option) \<Rightarrow> 'a list \<Rightarrow> 'b option" where
  "first_some f [] = None"
| "first_some f (x # xs) = (case f x of Some y \<Rightarrow> Some y | None \<Rightarrow> first_some f xs)"

text \<open>
  The digits \<^verbatim>\<open>repr\<close> prints: the shortest decimal that reads back as the number,
  at most 17 digits.
\<close>

definition shortest :: "int \<Rightarrow> int \<Rightarrow> nat \<times> int" where
  "shortest q e =
     (let n = q * pw_num 2 e;
          d = pw_den 2 e;
          k0 = declen n - declen d;
          p = (if d * pw_num 10 k0 \<le> n * pw_den 10 k0 then k0 else k0 - 1)
      in case first_some (shortest_at q e p)
                [1, 2, 3, 4, 5, 6, 7, 8, 9, 10, 11, 12, 13, 14, 15, 16, 17] of
           Some (c, x) \<Rightarrow> strip_zeros (nat c) x
         | None \<Rightarrow> (0, 0))"

definition float_of_decimal :: "bool \<Rightarrow> int \<Rightarrow> int \<Rightarrow> pyfloat" where
  "float_of_decimal neg M E =
     (case to_double M E of
        BZero \<Rightarrow> Finite neg 0 0
      | BInf \<Rightarrow> Infinity neg
      | BFin q e \<Rightarrow> (case shortest q e of (m, x) \<Rightarrow> Finite neg m x))"

text \<open>
  The exponent part of a float literal: empty, or \<^verbatim>\<open>e\<close> or \<^verbatim>\<open>E\<close>, an optional
  sign and at least one digit. \<open>None\<close> is a syntax error.
\<close>

definition parse_exponent :: "string \<Rightarrow> int option" where
  "parse_exponent s =
     (case s of
        [] \<Rightarrow> Some 0
      | c # r \<Rightarrow>
          if c = CHR ''e'' \<or> c = CHR ''E'' then
            (let neg = (r \<noteq> [] \<and> hd r = CHR ''-'');
                 ds = (if r \<noteq> [] \<and> (hd r = CHR ''-'' \<or> hd r = CHR ''+'') then tl r else r)
             in if ds \<noteq> [] \<and> list_all is_digit ds
                then Some (if neg then - int_of_digits ds else int_of_digits ds)
                else None)
          else None)"

text \<open>
  \<^verbatim>\<open>float(s)\<close> for a string of ASCII characters: underscores between digits are
  dropped, then the white space around, then come an optional sign and \<^verbatim>\<open>inf\<close>,
  \<^verbatim>\<open>infinity\<close> or \<^verbatim>\<open>nan\<close> in any case, or a decimal with digits before or after an
  optional point and an optional exponent, rounded to binary64. Anything else raises
  \<^verbatim>\<open>ValueError\<close>.
\<close>

definition float_of_str :: "string \<Rightarrow> exn + pyfloat" where
  "float_of_str s =
     (case remove_underscores s of
        None \<Rightarrow> Inl ValueError
      | Some s' \<Rightarrow>
         (let t = strip s';
              neg = (t \<noteq> [] \<and> hd t = CHR ''-'');
              u = (if t \<noteq> [] \<and> (hd t = CHR ''-'' \<or> hd t = CHR ''+'') then tl t else t);
              l = map lower_char u
          in if l = ''inf'' \<or> l = ''infinity'' then Inr (Infinity neg)
             else if l = ''nan'' then Inr NaN
             else
               (let ipart = takeWhile is_digit u;
                    r1 = dropWhile is_digit u;
                    point = (r1 \<noteq> [] \<and> hd r1 = CHR ''.'');
                    fpart = (if point then takeWhile is_digit (tl r1) else []);
                    r2 = (if point then dropWhile is_digit (tl r1) else r1)
                in if ipart = [] \<and> fpart = [] then Inl ValueError
                   else (case parse_exponent r2 of
                           None \<Rightarrow> Inl ValueError
                         | Some x \<Rightarrow>
                             Inr (float_of_decimal neg (int_of_digits (ipart @ fpart))
                                    (x - int (length fpart)))))))"

text \<open>\<^verbatim>\<open>s.split(c)\<close> for a one-character separator: never an empty list.\<close>

fun split :: "char \<Rightarrow> string \<Rightarrow> string list" where
  "split c [] = [[]]"
| "split c (x # xs) =
     (if x = c then [] # split c xs
      else (x # hd (split c xs)) # tl (split c xs))"

subsection \<open>The canonical record\<close>

record location_block =
  country :: pyval
  country_code :: pyval
  city :: pyval
  region :: pyval
  postal_code :: pyval
  latitude :: pyval
  longitude :: pyval
  timezone :: pyval
  google_maps_link :: string

record network_block =
  organization :: pyval
  isp :: pyval
  asn :: pyval

record location_record =
  ip :: string
  hostname :: string
  location :: location_block
  network :: network_block

text \<open>
  A decoded response body: a JSON object, or any other JSON value (an array, a string,
  a number, a boolean or null), on which \<^verbatim>\<open>.get\<close> raises \<^verbatim>\<open>AttributeError\<close>.
\<close>

datatype json = Object pydict | NonObject

subsection \<open>The provider normalizers\<close>

definition process_ipapi_response :: "string \<Rightarrow> string \<Rightarrow> json \<Rightarrow> exn + location_record" where
  "process_ipapi_response addr host geo_info =
     (case geo_info of
        NonObject \<Rightarrow> Inl AttributeError
      | Object d \<Rightarrow>
          (let lat = dict_get d ''latitude'' (PFloat zero_float);
               lon = dict_get d ''longitude'' (PFloat zero_float)
           in Inr \<lparr> ip = addr, hostname = host,
                    location = \<lparr>
                      country = dict_get d ''country_name'' (PStr ''Unknown''),
                      country_code = dict_get d ''country_code'' (PStr ''N/A''),
                      city = dict_get d ''city'' (PStr ''Unknown''),
                      region = dict_get d ''region'' (PStr ''Unknown''),
                      postal_code = dict_get d ''postal'' (PStr ''N/A''),
                      latitude = lat,
                      longitude = lon,
                      timezone = dict_get d ''timezone'' (PStr ''N/A''),
                      google_maps_link = create_google_maps_link lat lon \<rparr>,
                    network = \<lparr>
                      organization = dict_get d ''org'' (PStr ''Unknown''),
                      isp = dict_get d ''isp'' (PStr ''Unknown''),
                      asn = dict_get d ''asn'' (PStr ''Unknown'') \<rparr> \<rparr>))"

text \<open>
  In the ipinfo.io normalizer \<^verbatim>\<open>.split\<close> needs a string (\<^verbatim>\<open>AttributeError\<close> on any
  other value), \<^verbatim>\<open>float(loc[0])\<close> is evaluated before \<^verbatim>\<open>loc[1]\<close> is read, and
  \<^verbatim>\<open>loc[1]\<close> raises \<^verbatim>\<open>IndexError\<close> when the string has no comma.
\<close>

definition process_ipinfo_response :: "string \<Rightarrow> string \<Rightarrow> json \<Rightarrow> exn + location_record" where
  "process_ipinfo_response addr host geo_info =
     (case geo_info of
        NonObject \<Rightarrow> Inl AttributeError
      | Object d \<Rightarrow>
          (case dict_get d ''loc'' (PStr ''0,0'') of
             PStr s \<Rightarrow>
               (let loc = split (CHR '','') s in
                case float_of_str (loc ! 0) of
                  Inl e \<Rightarrow> Inl e
                | Inr flat \<Rightarrow>
                    if length loc < 2 then Inl IndexError
                    else (case float_of_str (loc ! 1) of
                            Inl e \<Rightarrow> Inl e
                          | Inr flon \<Rightarrow>
                              Inr \<lparr> ip = addr, hostname = host,
                                    location = \<lparr>
                                      country = dict_get d ''country'' (PStr ''Unknown''),
                                      country_code = dict_get d ''country'' (PStr ''N/A''),
                                      city = dict_get d ''city'' (PStr ''Unknown''),
                                      region = dict_get d ''region'' (PStr ''Unknown''),
                                      postal_code = dict_get d ''postal'' (PStr ''N/A''),
                                      latitude = PFloat flat,
                                      longitude = PFloat flon,
                                      timezone = dict_get d ''timezone'' (PStr ''N/A''),
                                      google_maps_link =
                                        create_google_maps_link (PFloat flat) (PFloat flon) \<rparr>,
                                    network = \<lparr>
                                      organization = dict_get d ''org'' (PStr ''Unknown''),
                                      isp = PStr ''N/A'',
                                      asn = PStr ''N/A'' \<rparr> \<rparr>))
           | _ \<Rightarrow> Inl AttributeError))"

definition process_ipapi_direct_response ::
  "string \<Rightarrow> string \<Rightarrow> json \<Rightarrow> exn + location_record" where
  "process_ipapi_direct_response addr host geo_info =
     (case geo_info of
        NonObject \<Rightarrow> Inl AttributeError
      | Object d \<Rightarrow>
          (let lat = dict_get d ''lat'' (PFloat zero_float);
               lon = dict_get d ''lon'' (PFloat zero_float)
           in Inr \<lparr> ip = addr, hostname = host,
                    location = \<lparr>
                      country = dict_get d ''country'' (PStr ''Unknown''),
                      country_code = dict_get d ''countryCode'' (PStr ''N/A''),
                      city = dict_get d ''city'' (PStr ''Unknown''),
                      region = dict_get d ''regionName'' (PStr ''Unknown''),
                      postal_code = dict_get d ''zip'' (PStr ''N/A''),
                      latitude = lat,
                      longitude = lon,
                      timezone = dict_get d ''timezone'' (PStr ''N/A''),
                      google_maps_link = create_google_maps_link lat lon \<rparr>,
                    network = \<lparr>
                      organization = dict_get d ''org'' (PStr ''Unknown''),
                      isp = dict_get d ''isp'' (PStr ''Unknown''),
                      asn = PStr ''N/A'' \<rparr> \<rparr>))"

subsection \<open>The address validator\<close>

text \<open>
  \<^verbatim>\<open>validate_ip_address\<close> calls \<^verbatim>\<open>ipaddress.ip_address\<close> of the standard library and
  maps \<^verbatim>\<open>ValueError\<close> to \<^verbatim>\<open>False\<close>. The library's parser is written out here after
  CPython's \<^verbatim>\<open>Lib/ipaddress.py\<close> (3.9.5 and later: no leading zeros in an IPv4 octet,
  an optional scope identifier after an IPv6 address); \<open>None\<close> stands for
  \<^verbatim>\<open>AddressValueError\<close>, a subclass of \<^verbatim>\<open>ValueError\<close> and the only exception the
  parser raises on a string.
\<close>

definition parse_octet :: "string \<Rightarrow> nat option" where
  "parse_octet octet_str =
     (if octet_str = [] then None
      else if \<not> list_all is_digit octet_str then None
      else if length octet_str > 3 then None
      else if octet_str \<noteq> ''0'' \<and> hd octet_str = CHR ''0'' then None
      else if nat_of_digits octet_str > 255 then None
      else Some (nat_of_digits octet_str))"

text \<open>\<^verbatim>\<open>int.from_bytes(octets, 'big')\<close>, and its 16-bit analogue for hextets.\<close>

definition from_bytes :: "nat list \<Rightarrow> nat" where
  "from_bytes bs = foldl (\<lambda>a b. 256 * a + b) 0 bs"

fun those_opt :: "'a option list \<Rightarrow> 'a list option" where
  "those_opt [] = Some []"
| "those_opt (None # xs) = None"
| "those_opt (Some x # xs) = (case those_opt xs of None \<Rightarrow> None | Some ys \<Rightarrow> Some (x # ys))"

definition ipv4_int_from_string :: "string \<Rightarrow> nat option" where
  "ipv4_int_from_string ip_str =
     (if ip_str = [] then None
      else let octets = split (CHR ''.'') ip_str in
        if length octets \<noteq> 4 then None
        else (case those_opt (map parse_octet octets) of
                None \<Rightarrow> None
              | Some bs \<Rightarrow> Some (from_bytes bs)))"

definition IPv4Address :: "string \<Rightarrow> nat option" where
  "IPv4Address address =
     (if CHR ''/'' \<in> set address then None else ipv4_int_from_string address)"

definition is_hex_digit :: "char \<Rightarrow> bool" where
  "is_hex_digit c = (c \<in> set ''0123456789ABCDEFabcdef'')"

definition hex_val :: "char \<Rightarrow> nat" where
  "hex_val c = (if is_digit c then of_char c - 48
                else if 97 \<le> (of_char c :: nat) then of_char c - 87
                else of_char c - 55)"

definition parse_hextet :: "string \<Rightarrow> nat option" where
  "parse_hextet hextet_str =
     (if \<not> list_all is_hex_digit hextet_str then None
      else if length hextet_str > 4 then None
      else if hextet_str = [] then None
      else Some (foldl (\<lambda>a c. 16 * a + hex_val c) 0 hextet_str))"

definition hex_char :: "nat \<Rightarrow> char" where
  "hex_char d = (if d < 10 then char_of (48 + d) else char_of (87 + d))"

text \<open>\<^verbatim>\<open>'%x' % n\<close>.\<close>

function hex_str :: "nat \<Rightarrow> string" where
  "hex_str n = (if n < 16 then [hex_char n] else hex_str (n div 16) @ [hex_char (n mod 16)])"
  by pat_completeness auto
termination
  by (relation "measure id") auto

declare hex_str.simps [simp del]

text \<open>
  \<^verbatim>\<open>_split_scope_id\<close>: \<^verbatim>\<open>partition('%')\<close>; a scope identifier, when there is one,
  must be non-empty and free of \<^verbatim>\<open>%\<close>. The result is the address part.
\<close>

definition split_scope_id :: "string \<Rightarrow> string option" where
  "split_scope_id ip_str =
     (let addr = takeWhile (\<lambda>c. c \<noteq> CHR ''%'') ip_str;
          rest = dropWhile (\<lambda>c. c \<noteq> CHR ''%'') ip_str
      in if rest = [] then Some addr
         else if tl rest = [] \<or> CHR ''%'' \<in> set (tl rest) then None
         else Some addr)"

text \<open>
  The indices \<open>i\<close> with \<open>1 \<le> i < length parts - 1\<close> at which \<open>parts\<close> has an empty
  string: the loop that looks for \<^verbatim>\<open>::\<close>; more than one is an error.
\<close>

definition skip_indices :: "string list \<Rightarrow> nat list" where
  "skip_indices parts = filter (\<lambda>i. parts ! i = []) [1 ..< length parts - 1]"

text \<open>
  The second half of \<^verbatim>\<open>_ip_int_from_string\<close>, from the check of \<^verbatim>\<open>_max_parts\<close> on:
  the place of \<^verbatim>\<open>::\<close>, the counts \<^verbatim>\<open>parts_hi\<close> and \<^verbatim>\<open>parts_lo\<close>, and the hextets.
\<close>

definition hextets_to_int :: "string list \<Rightarrow> nat option" where
  "hextets_to_int parts =
     (if length parts > 9 then None
      else
        (case skip_indices parts of
           [] \<Rightarrow>
             if length parts \<noteq> 8 then None
             else if hd parts = [] then None
             else if last parts = [] then None
             else (case those_opt (map parse_hextet parts) of
                     None \<Rightarrow> None
                   | Some hs \<Rightarrow> Some (foldl (\<lambda>a h. 65536 * a + h) 0 hs))
         | [skip_index] \<Rightarrow>
             (let parts_hi0 = skip_index;
                  parts_lo0 = length parts - skip_index - 1;
                  parts_hi = (if hd parts = [] then parts_hi0 - 1 else parts_hi0);
                  parts_lo = (if last parts = [] then parts_lo0 - 1 else parts_lo0)
              in if hd parts = [] \<and> parts_hi \<noteq> 0 then None
                 else if last parts = [] \<and> parts_lo \<noteq> 0 then None
                 else if 8 < parts_hi + parts_lo + 1 then None
                 else
                   (case (those_opt (map parse_hextet (take parts_hi parts)),
                          those_opt (map parse_hextet
                            (drop (length parts - parts_lo) parts))) of
                      (Some hi, Some lo) \<Rightarrow>
                        Some (foldl (\<lambda>a h. 65536 * a + h) 0
                          (hi @ replicate (8 - (parts_hi + parts_lo)) 0 @ lo))
                    | _ \<Rightarrow> None))
         | _ \<Rightarrow> None))"

text \<open>
  The first half: the string is split at the colons, and a last part with a dot is
  parsed as an IPv4 address and replaced by its two hextets.
\<close>

definition ipv6_int_from_string :: "string \<Rightarrow> nat option" where
  "ipv6_int_from_string ip_str =
     (if ip_str = [] then None
      else let parts = split (CHR '':'') ip_str in
        if length parts < 3 then None
        else if CHR ''.'' \<in> set (last parts)
        then (case IPv4Address (last parts) of
                None \<Rightarrow> None
              | Some ipv4_int \<Rightarrow>
                  hextets_to_int (butlast parts
                                  @ [hex_str (ipv4_int div 65536 mod 65536),
                                     hex_str (ipv4_int mod 65536)]))
        else hextets_to_int parts)"

definition IPv6Address :: "string \<Rightarrow> nat option" where
  "IPv6Address address =
     (if CHR ''/'' \<in> set address then None
      else (case split_scope_id address of
              None \<Rightarrow> None
            | Some addr_str \<Rightarrow> ipv6_int_from_string addr_str))"

datatype ip_addr = V4 nat | V6 nat

text \<open>\<^verbatim>\<open>ipaddress.ip_address\<close>: IPv4 first, then IPv6, else \<^verbatim>\<open>ValueError\<close>.\<close>

definition ip_address :: "string \<Rightarrow> exn + ip_addr" where
  "ip_address address =
     (case IPv4Address address of
        Some n \<Rightarrow> Inr (V4 n)
      | None \<Rightarrow> (case IPv6Address address of
                   Some n \<Rightarrow> Inr (V6 n)
                 | None \<Rightarrow> Inl ValueError))"

definition validate_ip_address :: "string \<Rightarrow> exn + bool" where
  "validate_ip_address addr =
     (case ip_address addr of
        Inr _ \<Rightarrow> Inr True
      | Inl e \<Rightarrow> if e = ValueError then Inr False else Inl e)"

subsection \<open>The collaborators and the trace of effects\<close>

text \<open>
  \<^verbatim>\<open>socket.gethostbyaddr\<close> answers with a host name, or raises \<^verbatim>\<open>socket.herror\<close>
  or \<^verbatim>\<open>socket.gaierror\<close>, the two exceptions the program catches, or raises
  another exception, which the program does not catch: \<^verbatim>\<open>TypeError\<close> for an
  argument with a NUL character, \<^verbatim>\<open>UnicodeError\<close> when the \<^verbatim>\<open>idna\<close> codec refuses
  an over-long label.
\<close>

datatype dns_outcome = Hostname string | Herror | Gaierror | Raised exn

text \<open>
  \<^verbatim>\<open>response.json()\<close> decodes the body or raises the \<^verbatim>\<open>JSONDecodeError\<close> of
  \<^verbatim>\<open>requests\<close>, which is a \<^verbatim>\<open>RequestException\<close> (requests 2.27 and later).
  \<^verbatim>\<open>requests.get\<close> returns a response with a status code or raises a
  \<^verbatim>\<open>RequestException\<close>: timeout, DNS failure, refused connection.
\<close>

datatype body = JSONDecodeError | Decoded json

datatype http_outcome = RequestException | Response int body

record world =
  gethostbyaddr :: "string \<Rightarrow> dns_outcome"
  requests_get :: "string \<Rightarrow> http_outcome"

datatype event = Lookup string | Get string nat | Sleep nat

datatype result = ErrorResult string | LocationRecord location_record

subsection \<open>The provider list\<close>

record api =
  url :: string
  name :: string
  key_needed :: bool

definition apis :: "api list" where
  "apis = [ \<lparr> url = ''https://ipapi.co/{}/json/'', name = ''ipapi.co'', key_needed = False \<rparr>,
            \<lparr> url = ''https://ipinfo.io/{}/json'', name = ''ipinfo.io'', key_needed = False \<rparr>,
            \<lparr> url = ''https://ip-api.com/json/{}'', name = ''ip-api.com'', key_needed = False \<rparr> ]"

text \<open>\<^verbatim>\<open>template.format(arg)\<close> for a template with one replacement field \<^verbatim>\<open>{}\<close>.\<close>

fun format1 :: "string \<Rightarrow> string \<Rightarrow> string" where
  "format1 (c # d # r) arg =
     (if c = CHR ''{'' \<and> d = CHR ''}'' then arg @ r else c # format1 (d # r) arg)"
| "format1 s arg = s"

subsection \<open>The resolver\<close>

definition returned :: "exn + location_record \<Rightarrow> exn + result" where
  "returned r = (case r of Inl e \<Rightarrow> Inl e | Inr rec \<Rightarrow> Inr (LocationRecord rec))"

text \<open>
  The loop \<^verbatim>\<open>for api in self.apis\<close>, with the events of each pass. A
  \<^verbatim>\<open>RequestException\<close> goes to \<^verbatim>\<open>continue\<close>; a response that does not return ends
  the pass with \<^verbatim>\<open>time.sleep(1)\<close>; an exception of a normalizer is not caught.
\<close>

fun try_apis :: "world \<Rightarrow> string \<Rightarrow> string \<Rightarrow> api list \<Rightarrow> (exn + result) \<times> event list" where
  "try_apis w addr host [] =
     (Inr (ErrorResult ''Failed to retrieve geolocation from all APIs''), [])"
| "try_apis w addr host (a # rest) =
     (let u = format1 (url a) addr in
      case requests_get w u of
        RequestException \<Rightarrow>
          (case try_apis w addr host rest of (r, t) \<Rightarrow> (r, Get u 5 # t))
      | Response status_code b \<Rightarrow>
          if status_code = 200 then
            (case b of
               JSONDecodeError \<Rightarrow>
                 (case try_apis w addr host rest of (r, t) \<Rightarrow> (r, Get u 5 # t))
             | Decoded geo_info \<Rightarrow>
                 if name a = ''ipapi.co'' then
                   (returned (process_ipapi_response addr host geo_info), [Get u 5])
                 else if name a = ''ipinfo.io'' then
                   (returned (process_ipinfo_response addr host geo_info), [Get u 5])
                 else if name a = ''ip-api.com'' then
                   (returned (process_ipapi_direct_response addr host geo_info), [Get u 5])
                 else
                   (case try_apis w addr host rest of (r, t) \<Rightarrow> (r, Get u 5 # Sleep 1 # t)))
          else
            (case try_apis w addr host rest of (r, t) \<Rightarrow> (r, Get u 5 # Sleep 1 # t)))"

text \<open>
  The block \<^verbatim>\<open>try: hostname = socket.gethostbyaddr(ip)[0]\<close> with its handler for
  \<^verbatim>\<open>socket.herror\<close> and \<^verbatim>\<open>socket.gaierror\<close>.
\<close>

definition resolve_hostname :: "world \<Rightarrow> string \<Rightarrow> exn + string" where
  "resolve_hostname w addr =
     (case gethostbyaddr w addr of
        Hostname h \<Rightarrow> Inr h
      | Herror \<Rightarrow> Inr ''N/A''
      | Gaierror \<Rightarrow> Inr ''N/A''
      | Raised e \<Rightarrow> Inl e)"

definition get_detailed_geolocation :: "world \<Rightarrow> string \<Rightarrow> (exn + result) \<times> event list" where
  "get_detailed_geolocation w addr =
     (case validate_ip_address addr of
        Inl e \<Rightarrow> (Inl e, [])
      | Inr valid \<Rightarrow>
          if \<not> valid then (Inr (ErrorResult ''Invalid IP address format''), [])
          else
            (case resolve_hostname w addr of
               Inl e \<Rightarrow> (Inl e, [Lookup addr])
             | Inr host \<Rightarrow>
                 (case try_apis w addr host apis of (r, t) \<Rightarrow> (r, Lookup addr # t))))"

subsection \<open>Vocabulary of the properties\<close>

text \<open>A provider attempt fails by a transport error or by a status code other than 200.\<close>

definition attempt_failed :: "http_outcome \<Rightarrow> bool" where
  "attempt_failed out = (case out of RequestException \<Rightarrow> True | Response sc b \<Rightarrow> sc \<noteq> 200)"

text \<open>
  In the words of the specification a provider attempt succeeds when the status code
  indicates success, one of the codes 200 to 299, and the body decodes.
\<close>

definition success_status :: "int \<Rightarrow> bool" where
  "success_status sc = (200 \<le> sc \<and> sc \<le> 299)"

definition attempt_succeeded :: "http_outcome \<Rightarrow> bool" where
  "attempt_succeeded out =
     (case out of
        RequestException \<Rightarrow> False
      | Response sc b \<Rightarrow>
          success_status sc \<and> (case b of JSONDecodeError \<Rightarrow> False | Decoded j \<Rightarrow> True))"

text \<open>What the program tests: the status code is 200, and the body decodes.\<close>

definition answered_200 :: "http_outcome \<Rightarrow> bool" where
  "answered_200 out =
     (case out of
        RequestException \<Rightarrow> False
      | Response sc b \<Rightarrow> sc = 200 \<and> (case b of JSONDecodeError \<Rightarrow> False | Decoded j \<Rightarrow> True))"

text \<open>
  The reverse lookup returns a name or raises one of the two exceptions the program
  catches.
\<close>

definition lookup_handled :: "world \<Rightarrow> string \<Rightarrow> bool" where
  "lookup_handled w addr = (case gethostbyaddr w addr of Raised e \<Rightarrow> False | _ \<Rightarrow> True)"

text \<open>The URLs requested in a trace, in order.\<close>

fun requests_of :: "event list \<Rightarrow> string list" where
  "requests_of [] = []"
| "requests_of (Get u timeout # t) = u # requests_of t"
| "requests_of (e # t) = requests_of t"

text \<open>
  \<^verbatim>\<open>urllib.parse.quote\<close> with its default \<^verbatim>\<open>safe='/'\<close>, which the first class of
  \<^verbatim>\<open>locator.py\<close> applies to the query of the map link: letters, digits and
  \<^verbatim>\<open>_.-~/\<close> stay, any other byte becomes \<^verbatim>\<open>%XX\<close> in upper-case hexadecimal.
\<close>

definition always_safe :: "char \<Rightarrow> bool" where
  "always_safe c =
     (c \<in> set ''ABCDEFGHIJKLMNOPQRSTUVWXYZabcdefghijklmnopqrstuvwxyz0123456789_.-~'')"

definition upper_hex_char :: "nat \<Rightarrow> char" where
  "upper_hex_char d = (if d < 10 then char_of (48 + d) else char_of (55 + d))"

definition quote :: "string \<Rightarrow> string" where
  "quote s =
     concat (map (\<lambda>c. if always_safe c \<or> c = CHR ''/'' then [c]
                        else [CHR ''%'', upper_hex_char ((of_char c :: nat) div 16),
                              upper_hex_char ((of_char c :: nat) mod 16)]) s)"

subsection \<open>Address literals, as the standards write them\<close>

text \<open>
  The textual forms against which the validator is compared. A dotted quad is four
  decimal numbers from 0 to 255, written without leading zeros and separated by dots.
  A hextet is one to four hexadecimal digits. An IPv6 text is eight hextets separated
  by colons, where the last two may be written as a dotted quad, and where one run of
  one or more hextets may be left out and written \<^verbatim>\<open>::\<close>. These are the forms the
  specification names: dotted quad and colon-hex, with the compressed and the
  embedded-IPv4 forms.
\<close>

fun join :: "char \<Rightarrow> string list \<Rightarrow> string" where
  "join c [] = []"
| "join c [x] = x"
| "join c (x # y # r) = x @ c # join c (y # r)"

definition dec_octet :: "string \<Rightarrow> bool" where
  "dec_octet x = (\<exists>n. n \<le> 255 \<and> x = str_nat n)"

definition dotted_quad :: "string \<Rightarrow> bool" where
  "dotted_quad s =
     (\<exists>a b c d. dec_octet a \<and> dec_octet b \<and> dec_octet c \<and> dec_octet d \<and>
        s = a @ ''.'' @ b @ ''.'' @ c @ ''.'' @ d)"

definition hextet :: "string \<Rightarrow> bool" where
  "hextet h = (1 \<le> length h \<and> length h \<le> 4 \<and> list_all is_hex_digit h)"

definition ipv6_text :: "string \<Rightarrow> bool" where
  "ipv6_text s =
     ((\<exists>hs. list_all hextet hs \<and> length hs = 8 \<and> s = join (CHR '':'') hs)
      \<or> (\<exists>hs q. list_all hextet hs \<and> length hs = 6 \<and> dotted_quad q \<and>
            s = join (CHR '':'') (hs @ [q]))
      \<or> (\<exists>hs ts. list_all hextet hs \<and> list_all hextet ts \<and> length hs + length ts \<le> 7 \<and>
            s = join (CHR '':'') hs @ ''::'' @ join (CHR '':'') ts)
      \<or> (\<exists>hs ts q. list_all hextet hs \<and> list_all hextet ts \<and> dotted_quad q \<and>
            length hs + length ts \<le> 5 \<and>
            s = join (CHR '':'') hs @ ''::'' @ join (CHR '':'') (ts @ [q])))"

text \<open>
  The colon-separated fields of the text \<open>hs :: ts\<close>: an empty field for the gap, and
  one more on a side that has no hextet.
\<close>

definition gap :: "string list \<Rightarrow> string list \<Rightarrow> string list" where
  "gap hs ts = (if hs = [] then [[]] else hs) @ [[]] @ (if ts = [] then [[]] else ts)"

definition address_literal :: "string \<Rightarrow> bool" where
  "address_literal s = (dotted_quad s \<or> ipv6_text s)"

text \<open>
  What \<^verbatim>\<open>ipaddress\<close> accepts beyond these forms: an IPv6 text followed by \<^verbatim>\<open>%\<close> and
  a scope identifier, which is any non-empty string without \<^verbatim>\<open>%\<close> and \<^verbatim>\<open>/\<close>; the
  library does not look at it further, so spaces, control characters and punctuation
  pass.
\<close>

definition scoped_ipv6_text :: "string \<Rightarrow> bool" where
  "scoped_ipv6_text s =
     (\<exists>a z. s = a @ ''%'' @ z \<and> ipv6_text a \<and> z \<noteq> [] \<and>
        CHR ''%'' \<notin> set z \<and> CHR ''/'' \<notin> set z)"

text \<open>Worlds and responses for the concrete instances below.\<close>

definition unreachable_world :: world where
  "unreachable_world = \<lparr> gethostbyaddr = (\<lambda>a. Herror), requests_get = (\<lambda>u. RequestException) \<rparr>"

definition ipapi_answer :: json where
  "ipapi_answer = Object [''country_name'' \<mapsto> PStr ''United States'',
                          ''latitude'' \<mapsto> PFloat (Finite False 374 (- 1)),
                          ''longitude'' \<mapsto> PFloat (Finite True 1221 (- 1)),
                          ''asn'' \<mapsto> PStr ''AS15169'']"

definition ipapi_direct_answer :: json where
  "ipapi_direct_answer = Object [''country'' \<mapsto> PStr ''United States'',
                                 ''lat'' \<mapsto> PFloat (Finite False 374 (- 1)),
                                 ''lon'' \<mapsto> PFloat (Finite True 1221 (- 1))]"

definition ipinfo_answer :: json where
  "ipinfo_answer = Object [''country'' \<mapsto> PStr ''GB'', ''loc'' \<mapsto> PStr ''51.5,-0.1'']"

text \<open>Reverse DNS fails and the first provider answers.\<close>

definition first_answers_world :: world where
  "first_answers_world =
     \<lparr> gethostbyaddr = (\<lambda>a. Gaierror),
       requests_get = (\<lambda>u. if u = ''https://ipapi.co/8.8.8.8/json/''
                             then Response 200 (Decoded ipapi_answer)
                             else RequestException) \<rparr>"

text \<open>
  The first provider times out, the second answers 503 and the third answers.
\<close>

definition third_answers_world :: world where
  "third_answers_world =
     \<lparr> gethostbyaddr = (\<lambda>a. Hostname ''dns.google''),
       requests_get = (\<lambda>u. if u = ''https://ip-api.com/json/8.8.8.8''
                             then Response 200 (Decoded ipapi_direct_answer)
                             else if u = ''https://ipinfo.io/8.8.8.8/json''
                             then Response 503 JSONDecodeError
                             else RequestException) \<rparr>"

text \<open>
  A field of the record holds the provider's value under a key, or a fallback literal
  when the key is absent.
\<close>

definition supplied_or :: "pydict \<Rightarrow> string \<Rightarrow> string \<Rightarrow> pyval \<Rightarrow> bool" where
  "supplied_or d k fallback v = (case d k of Some x \<Rightarrow> v = x | None \<Rightarrow> v = PStr fallback)"

text \<open>A value is a string; a key is absent from an answer or holds a string.\<close>

fun is_str :: "pyval \<Rightarrow> bool" where
  "is_str (PStr s) = True"
| "is_str v = False"

definition text_or_absent :: "pydict \<Rightarrow> string \<Rightarrow> bool" where
  "text_or_absent d k = (case d k of None \<Rightarrow> True | Some v \<Rightarrow> is_str v)"

text \<open>An ipapi.co answer with a null and a number under keys of string fields.\<close>

definition ipapi_null_answer :: json where
  "ipapi_null_answer = Object [''postal'' \<mapsto> PNone, ''city'' \<mapsto> PInt 7]"

text \<open>The first provider answers 203 with a body that decodes, the second answers 200.\<close>

definition status_203_world :: world where
  "status_203_world =
     \<lparr> gethostbyaddr = (\<lambda>a. Hostname ''dns.google''),
       requests_get = (\<lambda>u. if u = ''https://ipapi.co/8.8.8.8/json/''
                             then Response 203 (Decoded ipapi_answer)
                             else if u = ''https://ipinfo.io/8.8.8.8/json''
                             then Response 200 (Decoded ipinfo_answer)
                             else RequestException) \<rparr>"

text \<open>
  An address with a NUL character as scope identifier, which the validator accepts and
  on which \<^verbatim>\<open>socket.gethostbyaddr\<close> raises \<^verbatim>\<open>TypeError\<close>; a world where every
  provider answers, and one where every request fails.
\<close>

definition nul_zone_address :: string where
  "nul_zone_address = ''fe80::1%'' @ [CHR 0x00]"

definition nul_zone_world :: world where
  "nul_zone_world =
     \<lparr> gethostbyaddr = (\<lambda>a. Raised TypeError),
       requests_get = (\<lambda>u. Response 200 (Decoded ipapi_answer)) \<rparr>"

definition nul_zone_unreachable_world :: world where
  "nul_zone_unreachable_world =
     \<lparr> gethostbyaddr = (\<lambda>a. Raised TypeError), requests_get = (\<lambda>u. RequestException) \<rparr>"

text \<open>The first provider is unreachable and the second answers with a malformed \<^verbatim>\<open>loc\<close>.\<close>

definition malformed_loc_world :: world where
  "malformed_loc_world =
     \<lparr> gethostbyaddr = (\<lambda>a. Hostname ''dns.google''),
       requests_get = (\<lambda>u. if u = ''https://ipinfo.io/8.8.8.8/json''
                             then Response 200 (Decoded (Object [''loc'' \<mapsto> PStr ''abc'']))
                             else RequestException) \<rparr>"

section \<open>Evaluation lemmas\<close>

lemma validate_8888: "validate_ip_address ''8.8.8.8'' = Inr True"
  by (simp add: validate_ip_address_def ip_address_def IPv4Address_def ipv4_int_from_string_def
      parse_octet_def is_digit_def nat_of_digits_def digit_val_def from_bytes_def)

lemma validate_not_an_ip: "validate_ip_address ''not-an-ip'' = Inr False"
  by (simp add: validate_ip_address_def ip_address_def IPv4Address_def ipv4_int_from_string_def
      IPv6Address_def split_scope_id_def ipv6_int_from_string_def)

lemma validate_nul_zone: "validate_ip_address nul_zone_address = Inr True"
  by (simp add: nul_zone_address_def validate_ip_address_def ip_address_def IPv4Address_def
      ipv4_int_from_string_def IPv6Address_def split_scope_id_def ipv6_int_from_string_def
      skip_indices_def hextets_to_int_def parse_hextet_def is_hex_digit_def hex_val_def
      Let_def)

lemma float_of_str_0: "float_of_str ''0'' = Inr zero_float"
  by code_simp

lemma float_of_str_51_5: "float_of_str ''51.5'' = Inr (Finite False 515 (- 1))"
  by code_simp

lemma float_of_str_minus_0_1: "float_of_str ''-0.1'' = Inr (Finite True 1 (- 1))"
  by code_simp

lemma float_of_str_abc: "float_of_str ''abc'' = Inl ValueError"
  by code_simp

lemma repr_51_5: "repr_float (Finite False 515 (- 1)) = ''51.5''"
  by code_simp

lemma repr_minus_0_1: "repr_float (Finite True 1 (- 1)) = ''-0.1''"
  by code_simp

lemma repr_37_4: "repr_float (Finite False 374 (- 1)) = ''37.4''"
  by code_simp

lemma repr_minus_122_1: "repr_float (Finite True 1221 (- 1)) = ''-122.1''"
  by code_simp

lemma ipinfo_answer_record:
  "process_ipinfo_response addr host ipinfo_answer
     = Inr \<lparr> ip = addr, hostname = host,
             location = \<lparr> country = PStr ''GB'', country_code = PStr ''GB'',
               city = PStr ''Unknown'', region = PStr ''Unknown'', postal_code = PStr ''N/A'',
               latitude = PFloat (Finite False 515 (- 1)),
               longitude = PFloat (Finite True 1 (- 1)), timezone = PStr ''N/A'',
               google_maps_link =
                 ''https://www.google.com/maps/search/?api=1&query=51.5,-0.1'' \<rparr>,
             network = \<lparr> organization = PStr ''Unknown'', isp = PStr ''N/A'',
               asn = PStr ''N/A'' \<rparr> \<rparr>"
  by (simp add: process_ipinfo_response_def ipinfo_answer_def dict_get_def
      float_of_str_51_5 float_of_str_minus_0_1 create_google_maps_link_def
      repr_51_5 repr_minus_0_1 del: repr_float.simps One_nat_def)

lemma ipapi_answer_record:
  "process_ipapi_response addr host ipapi_answer
     = Inr \<lparr> ip = addr, hostname = host,
             location = \<lparr> country = PStr ''United States'', country_code = PStr ''N/A'',
               city = PStr ''Unknown'', region = PStr ''Unknown'', postal_code = PStr ''N/A'',
               latitude = PFloat (Finite False 374 (- 1)),
               longitude = PFloat (Finite True 1221 (- 1)), timezone = PStr ''N/A'',
               google_maps_link =
                 ''https://www.google.com/maps/search/?api=1&query=37.4,-122.1'' \<rparr>,
             network = \<lparr> organization = PStr ''Unknown'', isp = PStr ''Unknown'',
               asn = PStr ''AS15169'' \<rparr> \<rparr>"
  by (simp add: process_ipapi_response_def ipapi_answer_def dict_get_def
      create_google_maps_link_def repr_37_4 repr_minus_122_1 Let_def
      del: repr_float.simps One_nat_def)

lemma ipapi_direct_answer_record:
  "process_ipapi_direct_response addr host ipapi_direct_answer
     = Inr \<lparr> ip = addr, hostname = host,
             location = \<lparr> country = PStr ''United States'', country_code = PStr ''N/A'',
               city = PStr ''Unknown'', region = PStr ''Unknown'', postal_code = PStr ''N/A'',
               latitude = PFloat (Finite False 374 (- 1)),
               longitude = PFloat (Finite True 1221 (- 1)), timezone = PStr ''N/A'',
               google_maps_link =
                 ''https://www.google.com/maps/search/?api=1&query=37.4,-122.1'' \<rparr>,
             network = \<lparr> organization = PStr ''Unknown'', isp = PStr ''Unknown'',
               asn = PStr ''N/A'' \<rparr> \<rparr>"
  by (simp add: process_ipapi_direct_response_def ipapi_direct_answer_def dict_get_def
      create_google_maps_link_def repr_37_4 repr_minus_122_1 Let_def
      del: repr_float.simps One_nat_def)

lemma split_default_loc: "split (CHR '','') ''0,0'' = [''0'', ''0'']"
  by simp

lemma link_of_zero: "create_google_maps_link (PFloat zero_float) (PFloat zero_float)
    = ''No coordinates available''"
  by (simp add: create_google_maps_link_def zero_float_def)

lemma apis_urls:
  "map (\<lambda>a. format1 (url a) addr) apis =
     [''https://ipapi.co/'' @ addr @ ''/json/'',
      ''https://ipinfo.io/'' @ addr @ ''/json'',
      ''https://ip-api.com/json/'' @ addr]"
  by (simp add: apis_def)

section \<open>The normalizers keep the address and the host name\<close>

lemma ipapi_host: "process_ipapi_response addr host j = Inr r \<Longrightarrow> hostname r = host \<and> ip r = addr"
  by (auto simp: process_ipapi_response_def Let_def split: json.splits)

lemma ipinfo_host: "process_ipinfo_response addr host j = Inr r \<Longrightarrow> hostname r = host \<and> ip r = addr"
  by (auto simp: process_ipinfo_response_def Let_def
      split: json.splits pyval.splits sum.splits if_splits)

lemma ipapi_direct_host:
  "process_ipapi_direct_response addr host j = Inr r \<Longrightarrow> hostname r = host \<and> ip r = addr"
  by (auto simp: process_ipapi_direct_response_def Let_def split: json.splits)

lemma returned_record: "returned x = Inr (LocationRecord r) \<longleftrightarrow> x = Inr r"
  by (cases x) (auto simp: returned_def)

lemma try_apis_host:
  "try_apis w addr host l = (Inr (LocationRecord r), t) \<Longrightarrow> hostname r = host"
proof (induction l arbitrary: t)
  case Nil
  then show ?case by simp
next
  case (Cons a l)
  then show ?case
    by (auto simp: Let_def returned_record ipapi_host ipinfo_host ipapi_direct_host
        split: http_outcome.splits body.splits if_splits prod.splits)
qed

lemma try_apis_all_failed:
  "\<forall>a \<in> set l. attempt_failed (requests_get w (format1 (url a) addr)) \<Longrightarrow>
   fst (try_apis w addr host l)
     = Inr (ErrorResult ''Failed to retrieve geolocation from all APIs'')"
proof (induction l)
  case Nil
  then show ?case by simp
next
  case (Cons a l)
  then show ?case
    by (auto simp: Let_def attempt_failed_def split: http_outcome.splits prod.splits)
qed

lemma valid_lookup:
  "validate_ip_address addr = Inr True \<Longrightarrow> resolve_hostname w addr = Inr host \<Longrightarrow>
   get_detailed_geolocation w addr =
     (fst (try_apis w addr host apis), Lookup addr # snd (try_apis w addr host apis))"
  by (simp add: get_detailed_geolocation_def split: prod.splits)

lemma lookup_raises:
  "validate_ip_address addr = Inr True \<Longrightarrow> gethostbyaddr w addr = Raised e \<Longrightarrow>
   get_detailed_geolocation w addr = (Inl e, [Lookup addr])"
  by (simp add: get_detailed_geolocation_def resolve_hostname_def)

lemma lookup_handled_host:
  "lookup_handled w addr \<Longrightarrow> \<exists>host. resolve_hostname w addr = Inr host"
  by (simp add: lookup_handled_def resolve_hostname_def split: dns_outcome.splits)

lemma unreachable_host: "resolve_hostname unreachable_world addr = Inr ''N/A''"
  by (simp add: resolve_hostname_def unreachable_world_def)

section \<open>The host name only fills its field\<close>

lemma ipapi_rehost:
  "process_ipapi_response addr host j = Inr r \<Longrightarrow>
   process_ipapi_response addr host' j = Inr (r\<lparr>hostname := host'\<rparr>)"
  by (auto simp: process_ipapi_response_def Let_def split: json.splits)

lemma ipinfo_rehost:
  "process_ipinfo_response addr host j = Inr r \<Longrightarrow>
   process_ipinfo_response addr host' j = Inr (r\<lparr>hostname := host'\<rparr>)"
  by (auto simp: process_ipinfo_response_def Let_def
      split: json.splits pyval.splits sum.splits if_splits)

lemma ipapi_direct_rehost:
  "process_ipapi_direct_response addr host j = Inr r \<Longrightarrow>
   process_ipapi_direct_response addr host' j = Inr (r\<lparr>hostname := host'\<rparr>)"
  by (auto simp: process_ipapi_direct_response_def Let_def split: json.splits)

lemma try_apis_rehost:
  "try_apis w addr host l = (Inr (LocationRecord r), t) \<Longrightarrow>
   try_apis w addr host' l = (Inr (LocationRecord (r\<lparr>hostname := host'\<rparr>)), t)"
proof (induction l arbitrary: t)
  case Nil
  then show ?case by simp
next
  case (Cons a l)
  then show ?case
    by (auto simp: Let_def returned_record ipapi_rehost ipinfo_rehost ipapi_direct_rehost
        split: http_outcome.splits body.splits if_splits prod.splits)
qed

section \<open>One pass of the loop\<close>

lemma try_apis_failed_step:
  assumes "\<not> answered_200 (requests_get w (format1 (url a) addr))"
  shows "fst (try_apis w addr host (a # rest)) = fst (try_apis w addr host rest)"
    and "requests_of (snd (try_apis w addr host (a # rest)))
           = format1 (url a) addr # requests_of (snd (try_apis w addr host rest))"
    and "snd (try_apis w addr host rest) \<noteq> [] \<Longrightarrow>
         last (snd (try_apis w addr host (a # rest))) = last (snd (try_apis w addr host rest))"
  using assms
  by (auto simp: Let_def answered_200_def
      split: http_outcome.splits body.splits prod.splits)

lemma try_apis_ipapi_step:
  assumes "requests_get w (format1 (url a) addr) = Response 200 (Decoded j)"
    and "name a = ''ipapi.co''"
  shows "try_apis w addr host (a # rest)
           = (returned (process_ipapi_response addr host j), [Get (format1 (url a) addr) 5])"
  using assms by (simp add: Let_def)

lemma try_apis_ipinfo_step:
  assumes "requests_get w (format1 (url a) addr) = Response 200 (Decoded j)"
    and "name a = ''ipinfo.io''"
  shows "try_apis w addr host (a # rest)
           = (returned (process_ipinfo_response addr host j), [Get (format1 (url a) addr) 5])"
  using assms by (simp add: Let_def)

lemma try_apis_ipapi_direct_step:
  assumes "requests_get w (format1 (url a) addr) = Response 200 (Decoded j)"
    and "name a = ''ip-api.com''"
  shows "try_apis w addr host (a # rest)
           = (returned (process_ipapi_direct_response addr host j),
              [Get (format1 (url a) addr) 5])"
  using assms by (simp add: Let_def)

declare try_apis.simps [simp del]

section \<open>The address gate\<close>

text \<open>
  C6. An address that fails validation ends the lookup at once with the error
  \<^verbatim>\<open>Invalid IP address format\<close>, and the trace is empty: no reverse-DNS lookup and no
  HTTP request is made.
\<close>

theorem invalid_address_short_circuits:
  assumes "validate_ip_address addr = Inr False"
  shows "get_detailed_geolocation w addr
           = (Inr (ErrorResult ''Invalid IP address format''), [])"
  using assms by (simp add: get_detailed_geolocation_def)

theorem invalid_address_short_circuits_witness:
  "validate_ip_address ''not-an-ip'' = Inr False \<and>
   get_detailed_geolocation unreachable_world ''not-an-ip''
     = (Inr (ErrorResult ''Invalid IP address format''), [])"
  using invalid_address_short_circuits [OF validate_not_an_ip, of unreachable_world]
    validate_not_an_ip by simp

section \<open>The fallback loop\<close>

text \<open>
  C5, as stated, fails: the validator accepts the address \<^verbatim>\<open>fe80::1%\<close> followed by a
  NUL character, \<^verbatim>\<open>socket.gethostbyaddr\<close> raises \<^verbatim>\<open>TypeError\<close> on it, and the program
  catches only \<^verbatim>\<open>herror\<close> and \<^verbatim>\<open>gaierror\<close>. With every provider failing, the lookup
  raises \<^verbatim>\<open>TypeError\<close> before any request and does not return the error result.
\<close>

theorem all_failed_but_lookup_raises:
  "validate_ip_address nul_zone_address = Inr True \<and>
   attempt_failed (requests_get nul_zone_unreachable_world
     (''https://ipapi.co/'' @ nul_zone_address @ ''/json/'')) \<and>
   attempt_failed (requests_get nul_zone_unreachable_world
     (''https://ipinfo.io/'' @ nul_zone_address @ ''/json'')) \<and>
   attempt_failed (requests_get nul_zone_unreachable_world
     (''https://ip-api.com/json/'' @ nul_zone_address)) \<and>
   get_detailed_geolocation nul_zone_unreachable_world nul_zone_address
     = (Inl TypeError, [Lookup nul_zone_address]) \<and>
   fst (get_detailed_geolocation nul_zone_unreachable_world nul_zone_address)
     \<noteq> Inr (ErrorResult ''Failed to retrieve geolocation from all APIs'')"
proof -
  have g: "gethostbyaddr nul_zone_unreachable_world nul_zone_address = Raised TypeError"
    by (simp add: nul_zone_unreachable_world_def)
  have f: "attempt_failed (requests_get nul_zone_unreachable_world u)" for u
    by (simp add: nul_zone_unreachable_world_def attempt_failed_def)
  from lookup_raises [OF validate_nul_zone g] validate_nul_zone f show ?thesis by simp
qed

text \<open>
  C5, amended. For a valid address whose reverse lookup returns a name or raises
  \<^verbatim>\<open>herror\<close> or \<^verbatim>\<open>gaierror\<close>, when every provider of the list fails, by a transport
  error or by a status code other than 200, the lookup returns exactly the error
  \<^verbatim>\<open>Failed to retrieve geolocation from all APIs\<close>, whatever the individual failures were.
\<close>

theorem all_providers_failed:
  assumes "validate_ip_address addr = Inr True"
    and "lookup_handled w addr"
    and "\<forall>a \<in> set apis. attempt_failed (requests_get w (format1 (url a) addr))"
  shows "fst (get_detailed_geolocation w addr)
           = Inr (ErrorResult ''Failed to retrieve geolocation from all APIs'')"
proof -
  from lookup_handled_host [OF assms(2)] obtain host
    where h: "resolve_hostname w addr = Inr host" by blast
  show ?thesis
    using assms(3) by (simp add: valid_lookup [OF assms(1) h] try_apis_all_failed)
qed

theorem all_providers_failed_witness:
  "validate_ip_address ''8.8.8.8'' = Inr True \<and>
   lookup_handled unreachable_world ''8.8.8.8'' \<and>
   attempt_failed (requests_get unreachable_world ''https://ipapi.co/8.8.8.8/json/'') \<and>
   attempt_failed (requests_get unreachable_world ''https://ipinfo.io/8.8.8.8/json'') \<and>
   attempt_failed (requests_get unreachable_world ''https://ip-api.com/json/8.8.8.8'') \<and>
   fst (get_detailed_geolocation unreachable_world ''8.8.8.8'')
     = Inr (ErrorResult ''Failed to retrieve geolocation from all APIs'')"
proof -
  have f: "\<forall>a \<in> set apis.
      attempt_failed (requests_get unreachable_world (format1 (url a) ''8.8.8.8''))"
    by (simp add: unreachable_world_def attempt_failed_def)
  have g: "attempt_failed (requests_get unreachable_world u)" for u
    by (simp add: unreachable_world_def attempt_failed_def)
  have l: "lookup_handled unreachable_world ''8.8.8.8''"
    by (simp add: lookup_handled_def unreachable_world_def)
  from all_providers_failed [OF validate_8888 l f] validate_8888 g l show ?thesis by blast
qed

text \<open>
  C9, as stated, fails: not every failure of the reverse lookup is survived. The
  program catches \<^verbatim>\<open>herror\<close> and \<^verbatim>\<open>gaierror\<close> only. On the address \<^verbatim>\<open>fe80::1%\<close>
  followed by a NUL character, which the validator accepts, \<^verbatim>\<open>socket.gethostbyaddr\<close>
  raises \<^verbatim>\<open>TypeError\<close>: the lookup ends there with that exception, although the first
  provider would answer with status 200, and no record is returned.
\<close>

theorem reverse_dns_type_error_is_fatal:
  "validate_ip_address nul_zone_address = Inr True \<and>
   gethostbyaddr nul_zone_world nul_zone_address = Raised TypeError \<and>
   requests_get nul_zone_world (''https://ipapi.co/'' @ nul_zone_address @ ''/json/'')
     = Response 200 (Decoded ipapi_answer) \<and>
   get_detailed_geolocation nul_zone_world nul_zone_address
     = (Inl TypeError, [Lookup nul_zone_address])"
proof -
  have g: "gethostbyaddr nul_zone_world nul_zone_address = Raised TypeError"
    by (simp add: nul_zone_world_def)
  have r: "requests_get nul_zone_world u = Response 200 (Decoded ipapi_answer)" for u
    by (simp add: nul_zone_world_def)
  from lookup_raises [OF validate_nul_zone g] validate_nul_zone g r show ?thesis by simp
qed

text \<open>
  C9, amended. For a valid address whose reverse-DNS lookup raises \<^verbatim>\<open>herror\<close> or
  \<^verbatim>\<open>gaierror\<close>, the lookup goes on into the provider loop with the host name
  \<^verbatim>\<open>N/A\<close>: every record it returns has \<^verbatim>\<open>hostname == "N/A"\<close>, whatever record the
  providers yield under any other host name is returned here too, with \<^verbatim>\<open>N/A\<close> in
  its place, and when the first provider answers with status 200 and a JSON object a
  record is returned.
\<close>

theorem reverse_dns_failure_not_fatal:
  assumes "validate_ip_address addr = Inr True"
    and "gethostbyaddr w addr = Herror \<or> gethostbyaddr w addr = Gaierror"
  shows "get_detailed_geolocation w addr
           = (fst (try_apis w addr ''N/A'' apis), Lookup addr # snd (try_apis w addr ''N/A'' apis))
         \<and> (\<forall>r. fst (get_detailed_geolocation w addr) = Inr (LocationRecord r)
                \<longrightarrow> hostname r = ''N/A'')
         \<and> (\<forall>h r t. try_apis w addr h apis = (Inr (LocationRecord r), t)
                \<longrightarrow> get_detailed_geolocation w addr
                      = (Inr (LocationRecord (r\<lparr>hostname := ''N/A''\<rparr>)), Lookup addr # t))
         \<and> (\<forall>d. requests_get w (''https://ipapi.co/'' @ addr @ ''/json/'')
                   = Response 200 (Decoded (Object d))
                \<longrightarrow> (\<exists>r. get_detailed_geolocation w addr
                            = (Inr (LocationRecord r),
                               [Lookup addr, Get (''https://ipapi.co/'' @ addr @ ''/json/'') 5])
                         \<and> hostname r = ''N/A'' \<and> ip r = addr))"
proof -
  have h: "resolve_hostname w addr = Inr ''N/A''"
    using assms(2) by (auto simp: resolve_hostname_def)
  have 1: "get_detailed_geolocation w addr
           = (fst (try_apis w addr ''N/A'' apis), Lookup addr # snd (try_apis w addr ''N/A'' apis))"
    by (rule valid_lookup [OF assms(1) h])
  have 2: "hostname r = ''N/A''"
    if "fst (get_detailed_geolocation w addr) = Inr (LocationRecord r)" for r
  proof -
    from that 1 have "try_apis w addr ''N/A'' apis
        = (Inr (LocationRecord r), snd (try_apis w addr ''N/A'' apis))"
      by (metis fst_conv prod.collapse)
    then show ?thesis by (rule try_apis_host)
  qed
  have 3: "get_detailed_geolocation w addr
             = (Inr (LocationRecord (r\<lparr>hostname := ''N/A''\<rparr>)), Lookup addr # t)"
    if "try_apis w addr h' apis = (Inr (LocationRecord r), t)" for h' r t
    using try_apis_rehost [OF that, of "''N/A''"] 1 by simp
  have 4: "\<exists>r. get_detailed_geolocation w addr
                 = (Inr (LocationRecord r),
                    [Lookup addr, Get (''https://ipapi.co/'' @ addr @ ''/json/'') 5])
              \<and> hostname r = ''N/A'' \<and> ip r = addr"
    if g: "requests_get w (''https://ipapi.co/'' @ addr @ ''/json/'')
             = Response 200 (Decoded (Object d))" for d
  proof -
    obtain r where r: "process_ipapi_response addr ''N/A'' (Object d) = Inr r"
      by (simp add: process_ipapi_response_def Let_def)
    have "try_apis w addr ''N/A'' apis
        = (Inr (LocationRecord r), [Get (''https://ipapi.co/'' @ addr @ ''/json/'') 5])"
      using g r by (simp add: apis_def try_apis.simps returned_def)
    with 1 ipapi_host [OF r] show ?thesis by simp
  qed
  from 1 2 3 4 show ?thesis by blast
qed

theorem reverse_dns_failure_not_fatal_witness:
  "validate_ip_address ''8.8.8.8'' = Inr True \<and>
   gethostbyaddr first_answers_world ''8.8.8.8'' = Gaierror \<and>
   get_detailed_geolocation first_answers_world ''8.8.8.8''
     = (Inr (LocationRecord
          \<lparr> ip = ''8.8.8.8'', hostname = ''N/A'',
            location = \<lparr> country = PStr ''United States'', country_code = PStr ''N/A'',
              city = PStr ''Unknown'', region = PStr ''Unknown'', postal_code = PStr ''N/A'',
              latitude = PFloat (Finite False 374 (- 1)),
              longitude = PFloat (Finite True 1221 (- 1)), timezone = PStr ''N/A'',
              google_maps_link =
                ''https://www.google.com/maps/search/?api=1&query=37.4,-122.1'' \<rparr>,
            network = \<lparr> organization = PStr ''Unknown'', isp = PStr ''Unknown'',
              asn = PStr ''AS15169'' \<rparr> \<rparr>),
        [Lookup ''8.8.8.8'', Get ''https://ipapi.co/8.8.8.8/json/'' 5])"
proof -
  have g: "gethostbyaddr first_answers_world ''8.8.8.8'' = Gaierror"
    by (simp add: first_answers_world_def)
  have t: "try_apis first_answers_world ''8.8.8.8'' ''N/A'' apis
      = (returned (process_ipapi_response ''8.8.8.8'' ''N/A'' ipapi_answer),
         [Get ''https://ipapi.co/8.8.8.8/json/'' 5])"
    by (simp add: apis_def first_answers_world_def try_apis.simps)
  from reverse_dns_failure_not_fatal [OF validate_8888 disjI2 [OF g]]
  have "get_detailed_geolocation first_answers_world ''8.8.8.8''
      = (fst (try_apis first_answers_world ''8.8.8.8'' ''N/A'' apis),
         Lookup ''8.8.8.8'' # snd (try_apis first_answers_world ''8.8.8.8'' ''N/A'' apis))"
    by blast
  then show ?thesis
    by (simp add: t returned_def ipapi_answer_record validate_8888 g)
qed

text \<open>
  C1, as stated, fails in two ways. The program takes status 200 alone for success:
  when ipapi.co answers 203, a success status code, with a body that decodes, the
  answer is passed over, the program sleeps and asks ipinfo.io, whose record it
  returns. And not every validated address reaches the providers: on \<^verbatim>\<open>fe80::1%\<close>
  followed by a NUL character the reverse lookup raises \<^verbatim>\<open>TypeError\<close>, and the lookup
  ends before the first request although the first provider would answer.
\<close>

theorem status_203_is_passed_over:
  "validate_ip_address ''8.8.8.8'' = Inr True \<and>
   requests_get status_203_world ''https://ipapi.co/8.8.8.8/json/''
     = Response 203 (Decoded ipapi_answer) \<and>
   attempt_succeeded (requests_get status_203_world ''https://ipapi.co/8.8.8.8/json/'') \<and>
   get_detailed_geolocation status_203_world ''8.8.8.8''
     = (Inr (LocationRecord
          \<lparr> ip = ''8.8.8.8'', hostname = ''dns.google'',
            location = \<lparr> country = PStr ''GB'', country_code = PStr ''GB'',
              city = PStr ''Unknown'', region = PStr ''Unknown'', postal_code = PStr ''N/A'',
              latitude = PFloat (Finite False 515 (- 1)),
              longitude = PFloat (Finite True 1 (- 1)), timezone = PStr ''N/A'',
              google_maps_link =
                ''https://www.google.com/maps/search/?api=1&query=51.5,-0.1'' \<rparr>,
            network = \<lparr> organization = PStr ''Unknown'', isp = PStr ''N/A'',
              asn = PStr ''N/A'' \<rparr> \<rparr>),
        [Lookup ''8.8.8.8'', Get ''https://ipapi.co/8.8.8.8/json/'' 5, Sleep 1,
         Get ''https://ipinfo.io/8.8.8.8/json'' 5]) \<and>
   validate_ip_address nul_zone_address = Inr True \<and>
   attempt_succeeded (requests_get nul_zone_world
     (''https://ipapi.co/'' @ nul_zone_address @ ''/json/'')) \<and>
   get_detailed_geolocation nul_zone_world nul_zone_address
     = (Inl TypeError, [Lookup nul_zone_address])"
proof -
  have r1: "requests_get status_203_world ''https://ipapi.co/8.8.8.8/json/''
      = Response 203 (Decoded ipapi_answer)"
    by (simp add: status_203_world_def)
  have r2: "requests_get status_203_world ''https://ipinfo.io/8.8.8.8/json''
      = Response 200 (Decoded ipinfo_answer)"
    by (simp add: status_203_world_def)
  have s: "attempt_succeeded (Response 203 (Decoded ipapi_answer))"
    by (simp add: attempt_succeeded_def success_status_def)
  have h: "resolve_hostname status_203_world ''8.8.8.8'' = Inr ''dns.google''"
    by (simp add: resolve_hostname_def status_203_world_def)
  have t: "try_apis status_203_world ''8.8.8.8'' ''dns.google'' apis
      = (returned (process_ipinfo_response ''8.8.8.8'' ''dns.google'' ipinfo_answer),
         [Get ''https://ipapi.co/8.8.8.8/json/'' 5, Sleep 1,
          Get ''https://ipinfo.io/8.8.8.8/json'' 5])"
    by (simp add: apis_def try_apis.simps r1 r2)
  have a: "get_detailed_geolocation status_203_world ''8.8.8.8''
      = (returned (process_ipinfo_response ''8.8.8.8'' ''dns.google'' ipinfo_answer),
         [Lookup ''8.8.8.8'', Get ''https://ipapi.co/8.8.8.8/json/'' 5, Sleep 1,
          Get ''https://ipinfo.io/8.8.8.8/json'' 5])"
    by (simp add: valid_lookup [OF validate_8888 h] t)
  have g: "gethostbyaddr nul_zone_world nul_zone_address = Raised TypeError"
    by (simp add: nul_zone_world_def)
  have n: "attempt_succeeded (requests_get nul_zone_world u)" for u
    by (simp add: nul_zone_world_def attempt_succeeded_def success_status_def)
  show ?thesis
    by (simp add: validate_8888 r1 s a returned_def ipinfo_answer_record validate_nul_zone n
        lookup_raises [OF validate_nul_zone g])
qed

text \<open>
  C1, amended. For a valid address whose reverse lookup gives a host name (the name
  found, or \<^verbatim>\<open>N/A\<close> after \<^verbatim>\<open>herror\<close> or \<^verbatim>\<open>gaierror\<close>) and for any outcomes of the
  providers, the lookup requests ipapi.co, then ipinfo.io, then ip-api.com, and stops at
  the first one that answers with status 200 and a body that decodes: it returns the
  record of that provider's normalizer on the decoded body, or raises what the
  normalizer raises; the requests made are those up to that provider, in order, and
  the request to it is the last event of the trace.
\<close>

theorem first_answer_200_wins:
  assumes "validate_ip_address addr = Inr True"
    and "resolve_hostname w addr = Inr host"
  shows "(requests_get w (''https://ipapi.co/'' @ addr @ ''/json/'') = Response 200 (Decoded j)
            \<longrightarrow> get_detailed_geolocation w addr
                  = ((case process_ipapi_response addr host j of
                        Inl e \<Rightarrow> Inl e | Inr r \<Rightarrow> Inr (LocationRecord r)),
                     [Lookup addr, Get (''https://ipapi.co/'' @ addr @ ''/json/'') 5]))
       \<and> (\<not> answered_200 (requests_get w (''https://ipapi.co/'' @ addr @ ''/json/'')) \<and>
          requests_get w (''https://ipinfo.io/'' @ addr @ ''/json'') = Response 200 (Decoded j)
            \<longrightarrow> fst (get_detailed_geolocation w addr)
                  = (case process_ipinfo_response addr host j of
                       Inl e \<Rightarrow> Inl e | Inr r \<Rightarrow> Inr (LocationRecord r))
                \<and> requests_of (snd (get_detailed_geolocation w addr))
                  = [''https://ipapi.co/'' @ addr @ ''/json/'',
                     ''https://ipinfo.io/'' @ addr @ ''/json'']
                \<and> last (snd (get_detailed_geolocation w addr))
                  = Get (''https://ipinfo.io/'' @ addr @ ''/json'') 5)
       \<and> (\<not> answered_200 (requests_get w (''https://ipapi.co/'' @ addr @ ''/json/'')) \<and>
          \<not> answered_200 (requests_get w (''https://ipinfo.io/'' @ addr @ ''/json'')) \<and>
          requests_get w (''https://ip-api.com/json/'' @ addr) = Response 200 (Decoded j)
            \<longrightarrow> fst (get_detailed_geolocation w addr)
                  = (case process_ipapi_direct_response addr host j of
                       Inl e \<Rightarrow> Inl e | Inr r \<Rightarrow> Inr (LocationRecord r))
                \<and> requests_of (snd (get_detailed_geolocation w addr))
                  = [''https://ipapi.co/'' @ addr @ ''/json/'',
                     ''https://ipinfo.io/'' @ addr @ ''/json'',
                     ''https://ip-api.com/json/'' @ addr]
                \<and> last (snd (get_detailed_geolocation w addr))
                  = Get (''https://ip-api.com/json/'' @ addr) 5)"
proof -
  let ?h = host
  let ?a1 = "\<lparr> url = ''https://ipapi.co/{}/json/'', name = ''ipapi.co'', key_needed = False \<rparr>"
  let ?a2 = "\<lparr> url = ''https://ipinfo.io/{}/json'', name = ''ipinfo.io'', key_needed = False \<rparr>"
  let ?a3 = "\<lparr> url = ''https://ip-api.com/json/{}'', name = ''ip-api.com'', key_needed = False \<rparr>"
  let ?u1 = "''https://ipapi.co/'' @ addr @ ''/json/''"
  let ?u2 = "''https://ipinfo.io/'' @ addr @ ''/json''"
  let ?u3 = "''https://ip-api.com/json/'' @ addr"
  have u1: "format1 (url ?a1) addr = ?u1" and u2: "format1 (url ?a2) addr = ?u2"
    and u3: "format1 (url ?a3) addr = ?u3"
    by simp_all
  have run: "get_detailed_geolocation w addr
      = (fst (try_apis w addr ?h [?a1, ?a2, ?a3]), Lookup addr # snd (try_apis w addr ?h [?a1, ?a2, ?a3]))"
    using valid_lookup [OF assms, of] unfolding apis_def .
  have first: "get_detailed_geolocation w addr
      = (returned (process_ipapi_response addr ?h j), [Lookup addr, Get ?u1 5])"
    if "requests_get w ?u1 = Response 200 (Decoded j)"
  proof -
    have "try_apis w addr ?h [?a1, ?a2, ?a3]
        = (returned (process_ipapi_response addr ?h j), [Get (format1 (url ?a1) addr) 5])"
      by (rule try_apis_ipapi_step) (use that in simp_all)
    with run show ?thesis by simp
  qed
  have second: "fst (get_detailed_geolocation w addr)
        = returned (process_ipinfo_response addr ?h j)
      \<and> requests_of (snd (get_detailed_geolocation w addr)) = [?u1, ?u2]
      \<and> last (snd (get_detailed_geolocation w addr)) = Get ?u2 5"
    if f1: "\<not> answered_200 (requests_get w ?u1)"
      and s2: "requests_get w ?u2 = Response 200 (Decoded j)"
  proof -
    have t2: "try_apis w addr ?h [?a2, ?a3]
        = (returned (process_ipinfo_response addr ?h j), [Get (format1 (url ?a2) addr) 5])"
      by (rule try_apis_ipinfo_step) (use s2 in simp_all)
    have f1': "\<not> answered_200 (requests_get w (format1 (url ?a1) addr))"
      using f1 by simp
    have ne: "snd (try_apis w addr ?h [?a2, ?a3]) \<noteq> []"
      using t2 by simp
    have A: "fst (try_apis w addr ?h [?a1, ?a2, ?a3])
        = returned (process_ipinfo_response addr ?h j)"
      using try_apis_failed_step(1) [OF f1', of ?h "[?a2, ?a3]"] t2 by simp
    have B: "requests_of (snd (try_apis w addr ?h [?a1, ?a2, ?a3])) = [?u1, ?u2]"
      using try_apis_failed_step(2) [OF f1', of ?h "[?a2, ?a3]"] t2 by simp
    have C: "last (snd (try_apis w addr ?h [?a1, ?a2, ?a3])) = Get ?u2 5"
      using try_apis_failed_step(3) [OF f1' ne] t2 by simp
    have N: "snd (try_apis w addr ?h [?a1, ?a2, ?a3]) \<noteq> []"
      using B by auto
    show ?thesis
      by (simp add: run A B C N)
  qed
  have third: "fst (get_detailed_geolocation w addr)
        = returned (process_ipapi_direct_response addr ?h j)
      \<and> requests_of (snd (get_detailed_geolocation w addr)) = [?u1, ?u2, ?u3]
      \<and> last (snd (get_detailed_geolocation w addr)) = Get ?u3 5"
    if f1: "\<not> answered_200 (requests_get w ?u1)"
      and f2: "\<not> answered_200 (requests_get w ?u2)"
      and s3: "requests_get w ?u3 = Response 200 (Decoded j)"
  proof -
    have t3: "try_apis w addr ?h [?a3]
        = (returned (process_ipapi_direct_response addr ?h j),
           [Get (format1 (url ?a3) addr) 5])"
      by (rule try_apis_ipapi_direct_step) (use s3 in simp_all)
    have f1': "\<not> answered_200 (requests_get w (format1 (url ?a1) addr))"
      using f1 by simp
    have f2': "\<not> answered_200 (requests_get w (format1 (url ?a2) addr))"
      using f2 by simp
    have ne3: "snd (try_apis w addr ?h [?a3]) \<noteq> []"
      using t3 by simp
    have A2: "fst (try_apis w addr ?h [?a2, ?a3])
        = returned (process_ipapi_direct_response addr ?h j)"
      using try_apis_failed_step(1) [OF f2', of ?h "[?a3]"] t3 by simp
    have B2: "requests_of (snd (try_apis w addr ?h [?a2, ?a3])) = [?u2, ?u3]"
      using try_apis_failed_step(2) [OF f2', of ?h "[?a3]"] t3 by simp
    have C2: "last (snd (try_apis w addr ?h [?a2, ?a3])) = Get ?u3 5"
      using try_apis_failed_step(3) [OF f2' ne3] t3 by simp
    have ne2: "snd (try_apis w addr ?h [?a2, ?a3]) \<noteq> []"
      using B2 by auto
    have A: "fst (try_apis w addr ?h [?a1, ?a2, ?a3])
        = returned (process_ipapi_direct_response addr ?h j)"
      using try_apis_failed_step(1) [OF f1', of ?h "[?a2, ?a3]"] A2 by simp
    have B: "requests_of (snd (try_apis w addr ?h [?a1, ?a2, ?a3])) = [?u1, ?u2, ?u3]"
      using try_apis_failed_step(2) [OF f1', of ?h "[?a2, ?a3]"] B2 by simp
    have C: "last (snd (try_apis w addr ?h [?a1, ?a2, ?a3])) = Get ?u3 5"
      using try_apis_failed_step(3) [OF f1' ne2] C2 by simp
    have N: "snd (try_apis w addr ?h [?a1, ?a2, ?a3]) \<noteq> []"
      using B by auto
    show ?thesis
      by (simp add: run A B C N)
  qed
  from first second third show ?thesis unfolding returned_def by blast
qed

theorem first_answer_200_wins_witness:
  "validate_ip_address ''8.8.8.8'' = Inr True \<and>
   resolve_hostname third_answers_world ''8.8.8.8'' = Inr ''dns.google'' \<and>
   \<not> answered_200 (requests_get third_answers_world ''https://ipapi.co/8.8.8.8/json/'') \<and>
   \<not> answered_200 (requests_get third_answers_world ''https://ipinfo.io/8.8.8.8/json'') \<and>
   requests_get third_answers_world ''https://ip-api.com/json/8.8.8.8''
     = Response 200 (Decoded ipapi_direct_answer) \<and>
   fst (get_detailed_geolocation third_answers_world ''8.8.8.8'')
     = Inr (LocationRecord
          \<lparr> ip = ''8.8.8.8'', hostname = ''dns.google'',
            location = \<lparr> country = PStr ''United States'', country_code = PStr ''N/A'',
              city = PStr ''Unknown'', region = PStr ''Unknown'', postal_code = PStr ''N/A'',
              latitude = PFloat (Finite False 374 (- 1)),
              longitude = PFloat (Finite True 1221 (- 1)), timezone = PStr ''N/A'',
              google_maps_link =
                ''https://www.google.com/maps/search/?api=1&query=37.4,-122.1'' \<rparr>,
            network = \<lparr> organization = PStr ''Unknown'', isp = PStr ''Unknown'',
              asn = PStr ''N/A'' \<rparr> \<rparr>) \<and>
   requests_of (snd (get_detailed_geolocation third_answers_world ''8.8.8.8''))
     = [''https://ipapi.co/8.8.8.8/json/'', ''https://ipinfo.io/8.8.8.8/json'',
        ''https://ip-api.com/json/8.8.8.8''] \<and>
   last (snd (get_detailed_geolocation third_answers_world ''8.8.8.8''))
     = Get ''https://ip-api.com/json/8.8.8.8'' 5"
proof -
  have f1: "\<not> answered_200
      (requests_get third_answers_world ''https://ipapi.co/8.8.8.8/json/'')"
    by (simp add: third_answers_world_def answered_200_def)
  have f2: "\<not> answered_200
      (requests_get third_answers_world ''https://ipinfo.io/8.8.8.8/json'')"
    by (simp add: third_answers_world_def answered_200_def)
  have s3: "requests_get third_answers_world ''https://ip-api.com/json/8.8.8.8''
      = Response 200 (Decoded ipapi_direct_answer)"
    by (simp add: third_answers_world_def)
  have h: "resolve_hostname third_answers_world ''8.8.8.8'' = Inr ''dns.google''"
    by (simp add: resolve_hostname_def third_answers_world_def)
  from first_answer_200_wins [OF validate_8888 h, where j = ipapi_direct_answer]
  show ?thesis using f1 f2 s3 h validate_8888 by (simp add: ipapi_direct_answer_record)
qed

text \<open>
  C2 (the code departs from it). In a world where every request raises a
  \<^verbatim>\<open>RequestException\<close>, the lookup of \<^verbatim>\<open>8.8.8.8\<close> makes its three requests one after
  the other with no sleep between them: the handler goes to \<^verbatim>\<open>continue\<close> and
  \<^verbatim>\<open>time.sleep(1)\<close>, the last statement of the \<^verbatim>\<open>try\<close> body, is not reached. After a
  status code other than 200 the sleep is reached.
\<close>

theorem transport_errors_skip_the_delay:
  "snd (get_detailed_geolocation unreachable_world ''8.8.8.8'')
     = [Lookup ''8.8.8.8'',
        Get ''https://ipapi.co/8.8.8.8/json/'' 5,
        Get ''https://ipinfo.io/8.8.8.8/json'' 5,
        Get ''https://ip-api.com/json/8.8.8.8'' 5]"
proof -
  have "try_apis unreachable_world ''8.8.8.8'' ''N/A'' apis
      = (Inr (ErrorResult ''Failed to retrieve geolocation from all APIs''),
         [Get ''https://ipapi.co/8.8.8.8/json/'' 5,
          Get ''https://ipinfo.io/8.8.8.8/json'' 5,
          Get ''https://ip-api.com/json/8.8.8.8'' 5])"
    by (simp add: apis_def unreachable_world_def try_apis.simps)
  then show ?thesis
    by (simp add: valid_lookup [OF validate_8888 unreachable_host])
qed

section \<open>The normalizers\<close>

text \<open>
  C10. In the record the ipinfo.io normalizer returns, \<^verbatim>\<open>country\<close> and
  \<^verbatim>\<open>country_code\<close> are both read from the raw key \<^verbatim>\<open>country\<close>: they are that value
  when the key is present, and \<^verbatim>\<open>Unknown\<close> and \<^verbatim>\<open>N/A\<close> when it is absent.
\<close>

theorem ipinfo_country_code_reuses_country:
  assumes "process_ipinfo_response addr host (Object d) = Inr r"
  shows "(case d ''country'' of
            Some v \<Rightarrow> country (location r) = v \<and> country_code (location r) = v
          | None \<Rightarrow> country (location r) = PStr ''Unknown'' \<and>
                    country_code (location r) = PStr ''N/A'')"
  using assms
  by (auto simp: process_ipinfo_response_def dict_get_def Let_def
      split: pyval.splits sum.splits if_splits option.splits)

theorem ipinfo_country_code_reuses_country_witness:
  "(case process_ipinfo_response ''8.8.8.8'' ''N/A'' ipinfo_answer of
      Inr r \<Rightarrow> country (location r) = PStr ''GB'' \<and> country_code (location r) = PStr ''GB''
    | Inl e \<Rightarrow> False)"
proof -
  obtain r where r: "process_ipinfo_response ''8.8.8.8'' ''N/A''
      (Object [''country'' \<mapsto> PStr ''GB'', ''loc'' \<mapsto> PStr ''51.5,-0.1'']) = Inr r"
    using ipinfo_answer_record [of "''8.8.8.8''" "''N/A''"] by (simp add: ipinfo_answer_def)
  from ipinfo_country_code_reuses_country [OF r] r show ?thesis
    by (simp add: ipinfo_answer_def)
qed

lemma ipinfo_missing_loc_defaults_aux:
  assumes "d ''loc'' = None"
  shows "\<exists>r. process_ipinfo_response addr host (Object d) = Inr r \<and>
             latitude (location r) = PFloat zero_float \<and>
             longitude (location r) = PFloat zero_float \<and>
             google_maps_link (location r) = ''No coordinates available''"
  using assms
  by (simp add: process_ipinfo_response_def dict_get_def float_of_str_0 link_of_zero)

text \<open>
  C3, as stated, fails: a \<^verbatim>\<open>loc\<close> that \<^verbatim>\<open>float\<close> cannot parse raises
  \<^verbatim>\<open>ValueError\<close>, a \<^verbatim>\<open>loc\<close> without a comma raises \<^verbatim>\<open>IndexError\<close> at
  \<^verbatim>\<open>loc[1]\<close>, and the exception leaves \<^verbatim>\<open>get_detailed_geolocation\<close>, which catches
  only \<^verbatim>\<open>RequestException\<close>.
\<close>

theorem ipinfo_malformed_loc_raises:
  "process_ipinfo_response ''8.8.8.8'' ''dns.google'' (Object [''loc'' \<mapsto> PStr ''abc''])
     = Inl ValueError \<and>
   process_ipinfo_response ''8.8.8.8'' ''dns.google'' (Object [''loc'' \<mapsto> PStr ''51.5''])
     = Inl IndexError \<and>
   fst (get_detailed_geolocation malformed_loc_world ''8.8.8.8'') = Inl ValueError"
proof -
  have a: "process_ipinfo_response ''8.8.8.8'' ''dns.google''
      (Object [''loc'' \<mapsto> PStr ''abc'']) = Inl ValueError"
    by (simp add: process_ipinfo_response_def dict_get_def float_of_str_abc)
  have b: "process_ipinfo_response ''8.8.8.8'' ''dns.google''
      (Object [''loc'' \<mapsto> PStr ''51.5'']) = Inl IndexError"
    by (simp add: process_ipinfo_response_def dict_get_def float_of_str_51_5)
  have h: "resolve_hostname malformed_loc_world ''8.8.8.8'' = Inr ''dns.google''"
    by (simp add: resolve_hostname_def malformed_loc_world_def)
  have r1: "requests_get malformed_loc_world ''https://ipapi.co/8.8.8.8/json/''
      = RequestException"
    by (simp add: malformed_loc_world_def)
  have r2: "requests_get malformed_loc_world ''https://ipinfo.io/8.8.8.8/json''
      = Response 200 (Decoded (Object [''loc'' \<mapsto> PStr ''abc'']))"
    by (simp add: malformed_loc_world_def)
  have t: "fst (try_apis malformed_loc_world ''8.8.8.8'' ''dns.google'' apis) = Inl ValueError"
    by (simp add: apis_def try_apis.simps Let_def r1 r2 a returned_def)
  have c: "fst (get_detailed_geolocation malformed_loc_world ''8.8.8.8'') = Inl ValueError"
    by (simp add: valid_lookup [OF validate_8888 h] t)
  from a b c show ?thesis by blast
qed

text \<open>
  C3, amended. For every ipinfo.io response, a JSON object, in which \<^verbatim>\<open>loc\<close> is
  missing, the normalizer returns a full record with latitude and longitude \<^verbatim>\<open>0.0\<close>
  and the link \<^verbatim>\<open>No coordinates available\<close>.
\<close>

theorem ipinfo_missing_loc_defaults:
  assumes "d ''loc'' = None"
  shows "\<exists>r. process_ipinfo_response addr host (Object d) = Inr r \<and>
             latitude (location r) = PFloat zero_float \<and>
             longitude (location r) = PFloat zero_float \<and>
             google_maps_link (location r) = ''No coordinates available''"
  using assms by (rule ipinfo_missing_loc_defaults_aux)

theorem ipinfo_missing_loc_defaults_witness:
  "(case process_ipinfo_response ''8.8.8.8'' ''N/A'' (Object Map.empty) of
      Inr r \<Rightarrow> latitude (location r) = PFloat zero_float \<and>
               longitude (location r) = PFloat zero_float \<and>
               google_maps_link (location r) = ''No coordinates available''
    | Inl e \<Rightarrow> False)"
proof -
  have "Map.empty ''loc'' = (None :: pyval option)" by simp
  from ipinfo_missing_loc_defaults [OF this, of "''8.8.8.8''" "''N/A''"]
  show ?thesis by auto
qed

section \<open>The map link\<close>

lemma upper_hex_char_not_comma: "d < 16 \<Longrightarrow> upper_hex_char d \<noteq> CHR '',''"
proof
  assume d: "d < 16" and "upper_hex_char d = CHR '',''"
  then have "of_char (upper_hex_char d) = (44 :: nat)" by simp
  with d show False
    by (simp add: upper_hex_char_def split: if_splits)
qed

lemma quote_no_comma: "CHR '','' \<notin> set (quote s)"
proof (induction s)
  case Nil
  then show ?case by (simp add: quote_def)
next
  case (Cons c s)
  have "of_char c div 16 < (16 :: nat)"
    using nat_of_char_less_256 [of c] by (simp add: div_less_iff_less_mult)
  moreover have "of_char c mod 16 < (16 :: nat)" by simp
  ultimately have "CHR '','' \<noteq> upper_hex_char (of_char c div 16)"
      "CHR '','' \<noteq> upper_hex_char (of_char c mod 16)"
    using upper_hex_char_not_comma by metis+
  moreover have "always_safe c \<Longrightarrow> c \<noteq> CHR '',''"
    by (auto simp: always_safe_def)
  ultimately show ?case
    using Cons by (auto simp: quote_def)
qed

text \<open>
  C4, as stated, fails: the link for \<^verbatim>\<open>(37.4, -122.1)\<close> carries the comma as it is,
  where percent-encoding the query, as \<^verbatim>\<open>urllib.parse.quote\<close> does in the first class
  of the file, gives \<^verbatim>\<open>%2C\<close>.
\<close>

theorem maps_link_not_percent_encoded:
  "create_google_maps_link (PFloat (Finite False 374 (- 1))) (PFloat (Finite True 1221 (- 1)))
     = ''https://www.google.com/maps/search/?api=1&query=37.4,-122.1'' \<and>
   ''https://www.google.com/maps/search/?api=1&query='' @ quote ''37.4,-122.1''
     = ''https://www.google.com/maps/search/?api=1&query=37.4%2C-122.1'' \<and>
   create_google_maps_link (PFloat (Finite False 374 (- 1))) (PFloat (Finite True 1221 (- 1)))
     \<noteq> ''https://www.google.com/maps/search/?api=1&query=''
         @ quote (format_val (PFloat (Finite False 374 (- 1))) @ '',''
                  @ format_val (PFloat (Finite True 1221 (- 1))))"
proof -
  have q: "quote ''37.4,-122.1'' = ''37.4%2C-122.1''" by code_simp
  have l: "create_google_maps_link (PFloat (Finite False 374 (- 1)))
      (PFloat (Finite True 1221 (- 1)))
      = ''https://www.google.com/maps/search/?api=1&query=37.4,-122.1''"
    by (simp add: create_google_maps_link_def repr_37_4 repr_minus_122_1
        del: repr_float.simps)
  show ?thesis
    by (simp add: l q repr_37_4 repr_minus_122_1 del: repr_float.simps)
qed

text \<open>
  C4, amended. The link for \<^verbatim>\<open>(0.0, 0.0)\<close>, and for any two values equal to
  \<^verbatim>\<open>0.0\<close>, is the literal \<^verbatim>\<open>No coordinates available\<close>; for every other pair it
  is the fixed URL prefix followed by the two values as Python formats them, separated
  by a literal comma, with no percent-encoding: it is never the percent-encoded form.
\<close>

theorem maps_link_shape:
  "create_google_maps_link (PFloat zero_float) (PFloat zero_float) = ''No coordinates available''
   \<and> (eq_zero lat \<and> eq_zero lon \<longrightarrow>
        create_google_maps_link lat lon = ''No coordinates available'')
   \<and> (\<not> (eq_zero lat \<and> eq_zero lon) \<longrightarrow>
        create_google_maps_link lat lon
          = ''https://www.google.com/maps/search/?api=1&query=''
            @ format_val lat @ '','' @ format_val lon
        \<and> create_google_maps_link lat lon
          \<noteq> ''https://www.google.com/maps/search/?api=1&query=''
            @ quote (format_val lat @ '','' @ format_val lon))"
proof -
  have "format_val lat @ '','' @ format_val lon \<noteq> quote (format_val lat @ '','' @ format_val lon)"
  proof
    assume e: "format_val lat @ '','' @ format_val lon
        = quote (format_val lat @ '','' @ format_val lon)"
    have "CHR '','' \<in> set (format_val lat @ '','' @ format_val lon)" by simp
    with e quote_no_comma show False by metis
  qed
  then show ?thesis
    by (simp add: link_of_zero) (simp add: create_google_maps_link_def)
qed

theorem maps_link_shape_witness:
  "\<not> (eq_zero (PFloat (Finite False 374 (- 1))) \<and> eq_zero (PFloat (Finite True 1221 (- 1)))) \<and>
   create_google_maps_link (PFloat (Finite False 374 (- 1))) (PFloat (Finite True 1221 (- 1)))
     = ''https://www.google.com/maps/search/?api=1&query=37.4,-122.1'' \<and>
   eq_zero (PFloat (Finite True 0 0)) \<and> eq_zero (PInt 0) \<and>
   create_google_maps_link (PFloat (Finite True 0 0)) (PInt 0) = ''No coordinates available''"
proof -
  have n: "\<not> (eq_zero (PFloat (Finite False 374 (- 1))) \<and>
      eq_zero (PFloat (Finite True 1221 (- 1))))"
    by simp
  have z: "eq_zero (PFloat (Finite True 0 0)) \<and> eq_zero (PInt 0)" by simp
  from maps_link_shape [of "PFloat (Finite False 374 (- 1))" "PFloat (Finite True 1221 (- 1))"]
    maps_link_shape [of "PFloat (Finite True 0 0)" "PInt 0"] n z
  show ?thesis
    by (simp add: repr_37_4 repr_minus_122_1 del: repr_float.simps)
qed

section \<open>The fields of the record\<close>

lemma is_str_dict_get: "is_str (dict_get d k (PStr f)) = text_or_absent d k"
  by (simp add: dict_get_def text_or_absent_def split: option.splits)

lemma ipapi_fields:
  assumes "process_ipapi_response addr host j = Inr r"
  shows "\<exists>d. j = Object d \<and> ip r = addr \<and> hostname r = host \<and>
    supplied_or d ''country_name'' ''Unknown'' (country (location r)) \<and>
    supplied_or d ''country_code'' ''N/A'' (country_code (location r)) \<and>
    supplied_or d ''city'' ''Unknown'' (city (location r)) \<and>
    supplied_or d ''region'' ''Unknown'' (region (location r)) \<and>
    supplied_or d ''postal'' ''N/A'' (postal_code (location r)) \<and>
    supplied_or d ''timezone'' ''N/A'' (timezone (location r)) \<and>
    supplied_or d ''org'' ''Unknown'' (organization (network r)) \<and>
    supplied_or d ''isp'' ''Unknown'' (isp (network r)) \<and>
    supplied_or d ''asn'' ''Unknown'' (asn (network r)) \<and>
    list_all is_str [country (location r), country_code (location r),
       city (location r), region (location r), postal_code (location r),
       timezone (location r), organization (network r), isp (network r), asn (network r)]
     = list_all (text_or_absent d) [''country_name'', ''country_code'', ''city'', ''region'',
        ''postal'', ''timezone'', ''org'', ''isp'', ''asn''] \<and>
    (d ''latitude'' = None \<longrightarrow> latitude (location r) = PFloat zero_float) \<and>
    (d ''longitude'' = None \<longrightarrow> longitude (location r) = PFloat zero_float)"
proof (cases j)
  case (Object d)
  with assms have r: "r = \<lparr> ip = addr, hostname = host,
      location = \<lparr>
        country = dict_get d ''country_name'' (PStr ''Unknown''),
        country_code = dict_get d ''country_code'' (PStr ''N/A''),
        city = dict_get d ''city'' (PStr ''Unknown''),
        region = dict_get d ''region'' (PStr ''Unknown''),
        postal_code = dict_get d ''postal'' (PStr ''N/A''),
        latitude = dict_get d ''latitude'' (PFloat zero_float),
        longitude = dict_get d ''longitude'' (PFloat zero_float),
        timezone = dict_get d ''timezone'' (PStr ''N/A''),
        google_maps_link = create_google_maps_link
          (dict_get d ''latitude'' (PFloat zero_float))
          (dict_get d ''longitude'' (PFloat zero_float)) \<rparr>,
      network = \<lparr>
        organization = dict_get d ''org'' (PStr ''Unknown''),
        isp = dict_get d ''isp'' (PStr ''Unknown''),
        asn = dict_get d ''asn'' (PStr ''Unknown'') \<rparr> \<rparr>"
    by (simp add: process_ipapi_response_def Let_def)
  have s: "supplied_or d k f (dict_get d k (PStr f))" for k f
    by (simp add: supplied_or_def dict_get_def split: option.splits)
  show ?thesis
    using Object by (simp add: r s is_str_dict_get) (simp add: dict_get_def)
next
  case NonObject
  with assms show ?thesis by (simp add: process_ipapi_response_def)
qed

lemma ipinfo_fields:
  assumes "process_ipinfo_response addr host j = Inr r"
  shows "\<exists>d. j = Object d \<and> ip r = addr \<and> hostname r = host \<and>
    supplied_or d ''country'' ''Unknown'' (country (location r)) \<and>
    supplied_or d ''country'' ''N/A'' (country_code (location r)) \<and>
    supplied_or d ''city'' ''Unknown'' (city (location r)) \<and>
    supplied_or d ''region'' ''Unknown'' (region (location r)) \<and>
    supplied_or d ''postal'' ''N/A'' (postal_code (location r)) \<and>
    supplied_or d ''timezone'' ''N/A'' (timezone (location r)) \<and>
    supplied_or d ''org'' ''Unknown'' (organization (network r)) \<and>
    isp (network r) = PStr ''N/A'' \<and>
    asn (network r) = PStr ''N/A'' \<and>
    list_all is_str [country (location r), country_code (location r),
       city (location r), region (location r), postal_code (location r),
       timezone (location r), organization (network r), isp (network r), asn (network r)]
     = list_all (text_or_absent d) [''country'', ''city'', ''region'', ''postal'', ''timezone'', ''org''] \<and>
    (d ''loc'' = None \<longrightarrow> latitude (location r) = PFloat zero_float \<and>
                         longitude (location r) = PFloat zero_float)"
proof (cases j)
  case (Object d)
  have s: "supplied_or d k f (dict_get d k (PStr f))" for k f
    by (simp add: supplied_or_def dict_get_def split: option.splits)
  from assms Object obtain flat flon where r: "r = \<lparr> ip = addr, hostname = host,
      location = \<lparr>
        country = dict_get d ''country'' (PStr ''Unknown''),
        country_code = dict_get d ''country'' (PStr ''N/A''),
        city = dict_get d ''city'' (PStr ''Unknown''),
        region = dict_get d ''region'' (PStr ''Unknown''),
        postal_code = dict_get d ''postal'' (PStr ''N/A''),
        latitude = PFloat flat,
        longitude = PFloat flon,
        timezone = dict_get d ''timezone'' (PStr ''N/A''),
        google_maps_link = create_google_maps_link (PFloat flat) (PFloat flon) \<rparr>,
      network = \<lparr>
        organization = dict_get d ''org'' (PStr ''Unknown''),
        isp = PStr ''N/A'',
        asn = PStr ''N/A'' \<rparr> \<rparr>"
    by (auto simp: process_ipinfo_response_def Let_def
        split: pyval.splits sum.splits if_splits)
  have z: "latitude (location r) = PFloat zero_float \<and>
      longitude (location r) = PFloat zero_float" if "d ''loc'' = None"
    using assms Object that
    by (auto simp: process_ipinfo_response_def dict_get_def float_of_str_0)
  show ?thesis
    using Object z by (simp add: r s is_str_dict_get)
next
  case NonObject
  with assms show ?thesis by (simp add: process_ipinfo_response_def)
qed

lemma ipapi_direct_fields:
  assumes "process_ipapi_direct_response addr host j = Inr r"
  shows "\<exists>d. j = Object d \<and> ip r = addr \<and> hostname r = host \<and>
    supplied_or d ''country'' ''Unknown'' (country (location r)) \<and>
    supplied_or d ''countryCode'' ''N/A'' (country_code (location r)) \<and>
    supplied_or d ''city'' ''Unknown'' (city (location r)) \<and>
    supplied_or d ''regionName'' ''Unknown'' (region (location r)) \<and>
    supplied_or d ''zip'' ''N/A'' (postal_code (location r)) \<and>
    supplied_or d ''timezone'' ''N/A'' (timezone (location r)) \<and>
    supplied_or d ''org'' ''Unknown'' (organization (network r)) \<and>
    supplied_or d ''isp'' ''Unknown'' (isp (network r)) \<and>
    asn (network r) = PStr ''N/A'' \<and>
    list_all is_str [country (location r), country_code (location r),
       city (location r), region (location r), postal_code (location r),
       timezone (location r), organization (network r), isp (network r), asn (network r)]
     = list_all (text_or_absent d) [''country'', ''countryCode'', ''city'', ''regionName'',
        ''zip'', ''timezone'', ''org'', ''isp''] \<and>
    (d ''lat'' = None \<longrightarrow> latitude (location r) = PFloat zero_float) \<and>
    (d ''lon'' = None \<longrightarrow> longitude (location r) = PFloat zero_float)"
proof (cases j)
  case (Object d)
  with assms have r: "r = \<lparr> ip = addr, hostname = host,
      location = \<lparr>
        country = dict_get d ''country'' (PStr ''Unknown''),
        country_code = dict_get d ''countryCode'' (PStr ''N/A''),
        city = dict_get d ''city'' (PStr ''Unknown''),
        region = dict_get d ''regionName'' (PStr ''Unknown''),
        postal_code = dict_get d ''zip'' (PStr ''N/A''),
        latitude = dict_get d ''lat'' (PFloat zero_float),
        longitude = dict_get d ''lon'' (PFloat zero_float),
        timezone = dict_get d ''timezone'' (PStr ''N/A''),
        google_maps_link = create_google_maps_link
          (dict_get d ''lat'' (PFloat zero_float))
          (dict_get d ''lon'' (PFloat zero_float)) \<rparr>,
      network = \<lparr>
        organization = dict_get d ''org'' (PStr ''Unknown''),
        isp = dict_get d ''isp'' (PStr ''Unknown''),
        asn = PStr ''N/A'' \<rparr> \<rparr>"
    by (simp add: process_ipapi_direct_response_def Let_def)
  have s: "supplied_or d k f (dict_get d k (PStr f))" for k f
    by (simp add: supplied_or_def dict_get_def split: option.splits)
  show ?thesis
    using Object by (simp add: r s is_str_dict_get) (simp add: dict_get_def)
next
  case NonObject
  with assms show ?thesis by (simp add: process_ipapi_direct_response_def)
qed

text \<open>
  C7, as stated, fails in two ways. Which literal stands where: for an ipapi.co answer
  that omits every key, the geographic fields \<^verbatim>\<open>country_code\<close>, \<^verbatim>\<open>postal_code\<close> and
  \<^verbatim>\<open>timezone\<close>, which the provider does supply, fall back to \<^verbatim>\<open>N/A\<close> and not to
  \<^verbatim>\<open>Unknown\<close>, and the network fields fall back to \<^verbatim>\<open>Unknown\<close>. And not every
  string field is populated: \<^verbatim>\<open>dict.get\<close> gives the fallback for an absent key only,
  so for an answer with \<^verbatim>\<open>"postal": null\<close> and \<^verbatim>\<open>"city": 7\<close> the field
  \<^verbatim>\<open>postal_code\<close> is \<^verbatim>\<open>None\<close> and \<^verbatim>\<open>city\<close> is the number 7.
\<close>

theorem ipapi_fallbacks_and_null_fields:
  "process_ipapi_response ''8.8.8.8'' ''N/A'' (Object Map.empty)
     = Inr \<lparr> ip = ''8.8.8.8'', hostname = ''N/A'',
             location = \<lparr> country = PStr ''Unknown'', country_code = PStr ''N/A'',
               city = PStr ''Unknown'', region = PStr ''Unknown'', postal_code = PStr ''N/A'',
               latitude = PFloat (Finite False 0 0), longitude = PFloat (Finite False 0 0),
               timezone = PStr ''N/A'', google_maps_link = ''No coordinates available'' \<rparr>,
             network = \<lparr> organization = PStr ''Unknown'', isp = PStr ''Unknown'',
               asn = PStr ''Unknown'' \<rparr> \<rparr> \<and>
   process_ipapi_response ''8.8.8.8'' ''N/A'' ipapi_null_answer
     = Inr \<lparr> ip = ''8.8.8.8'', hostname = ''N/A'',
             location = \<lparr> country = PStr ''Unknown'', country_code = PStr ''N/A'',
               city = PInt 7, region = PStr ''Unknown'', postal_code = PNone,
               latitude = PFloat (Finite False 0 0), longitude = PFloat (Finite False 0 0),
               timezone = PStr ''N/A'', google_maps_link = ''No coordinates available'' \<rparr>,
             network = \<lparr> organization = PStr ''Unknown'', isp = PStr ''Unknown'',
               asn = PStr ''Unknown'' \<rparr> \<rparr> \<and>
   \<not> is_str PNone \<and> \<not> is_str (PInt 7)"
  by (simp add: process_ipapi_response_def ipapi_null_answer_def dict_get_def zero_float_def
      create_google_maps_link_def Let_def)

text \<open>
  C7, amended. In every record a normalizer returns, each string field holds the
  value the provider sent under its key, passed through as it is, whatever its JSON
  type, or, when the key is absent, its own literal: \<^verbatim>\<open>Unknown\<close> for country, city,
  region and organization, and for isp and asn where the provider exposes them;
  \<^verbatim>\<open>N/A\<close> for country_code, postal_code and timezone, and always for the fields the
  provider cannot supply (isp and asn for ipinfo.io, asn for ip-api.com). So the
  string fields of the record are all strings exactly when each key read for them is
  absent or holds a string. Latitude and longitude are \<^verbatim>\<open>0.0\<close> when the provider omits
  them.
\<close>

theorem normalizers_pass_values_through:
  "(process_ipapi_response addr host j = Inr r \<longrightarrow>
      (\<exists>d. j = Object d \<and> ip r = addr \<and> hostname r = host \<and>
        supplied_or d ''country_name'' ''Unknown'' (country (location r)) \<and>
        supplied_or d ''country_code'' ''N/A'' (country_code (location r)) \<and>
        supplied_or d ''city'' ''Unknown'' (city (location r)) \<and>
        supplied_or d ''region'' ''Unknown'' (region (location r)) \<and>
        supplied_or d ''postal'' ''N/A'' (postal_code (location r)) \<and>
        supplied_or d ''timezone'' ''N/A'' (timezone (location r)) \<and>
        supplied_or d ''org'' ''Unknown'' (organization (network r)) \<and>
        supplied_or d ''isp'' ''Unknown'' (isp (network r)) \<and>
        supplied_or d ''asn'' ''Unknown'' (asn (network r)) \<and>
        list_all is_str [country (location r), country_code (location r),
           city (location r), region (location r), postal_code (location r),
           timezone (location r), organization (network r), isp (network r), asn (network r)]
         = list_all (text_or_absent d) [''country_name'', ''country_code'', ''city'', ''region'',
            ''postal'', ''timezone'', ''org'', ''isp'', ''asn''] \<and>
        (d ''latitude'' = None \<longrightarrow> latitude (location r) = PFloat zero_float) \<and>
        (d ''longitude'' = None \<longrightarrow> longitude (location r) = PFloat zero_float)))
   \<and> (process_ipinfo_response addr host j = Inr r \<longrightarrow>
      (\<exists>d. j = Object d \<and> ip r = addr \<and> hostname r = host \<and>
        supplied_or d ''country'' ''Unknown'' (country (location r)) \<and>
        supplied_or d ''country'' ''N/A'' (country_code (location r)) \<and>
        supplied_or d ''city'' ''Unknown'' (city (location r)) \<and>
        supplied_or d ''region'' ''Unknown'' (region (location r)) \<and>
        supplied_or d ''postal'' ''N/A'' (postal_code (location r)) \<and>
        supplied_or d ''timezone'' ''N/A'' (timezone (location r)) \<and>
        supplied_or d ''org'' ''Unknown'' (organization (network r)) \<and>
        isp (network r) = PStr ''N/A'' \<and>
        asn (network r) = PStr ''N/A'' \<and>
        list_all is_str [country (location r), country_code (location r),
           city (location r), region (location r), postal_code (location r),
           timezone (location r), organization (network r), isp (network r), asn (network r)]
         = list_all (text_or_absent d) [''country'', ''city'', ''region'', ''postal'', ''timezone'', ''org''] \<and>
        (d ''loc'' = None \<longrightarrow> latitude (location r) = PFloat zero_float \<and>
                             longitude (location r) = PFloat zero_float)))
   \<and> (process_ipapi_direct_response addr host j = Inr r \<longrightarrow>
      (\<exists>d. j = Object d \<and> ip r = addr \<and> hostname r = host \<and>
        supplied_or d ''country'' ''Unknown'' (country (location r)) \<and>
        supplied_or d ''countryCode'' ''N/A'' (country_code (location r)) \<and>
        supplied_or d ''city'' ''Unknown'' (city (location r)) \<and>
        supplied_or d ''regionName'' ''Unknown'' (region (location r)) \<and>
        supplied_or d ''zip'' ''N/A'' (postal_code (location r)) \<and>
        supplied_or d ''timezone'' ''N/A'' (timezone (location r)) \<and>
        supplied_or d ''org'' ''Unknown'' (organization (network r)) \<and>
        supplied_or d ''isp'' ''Unknown'' (isp (network r)) \<and>
        asn (network r) = PStr ''N/A'' \<and>
        list_all is_str [country (location r), country_code (location r),
           city (location r), region (location r), postal_code (location r),
           timezone (location r), organization (network r), isp (network r), asn (network r)]
         = list_all (text_or_absent d) [''country'', ''countryCode'', ''city'', ''regionName'',
            ''zip'', ''timezone'', ''org'', ''isp''] \<and>
        (d ''lat'' = None \<longrightarrow> latitude (location r) = PFloat zero_float) \<and>
        (d ''lon'' = None \<longrightarrow> longitude (location r) = PFloat zero_float)))"
  using ipapi_fields [of addr host j r] ipinfo_fields [of addr host j r]
    ipapi_direct_fields [of addr host j r]
  by blast

theorem normalizers_pass_values_through_witness:
  "(case process_ipapi_response ''8.8.8.8'' ''N/A'' ipapi_answer of
      Inr r \<Rightarrow> country (location r) = PStr ''United States'' \<and>
               country_code (location r) = PStr ''N/A'' \<and>
               city (location r) = PStr ''Unknown'' \<and>
               asn (network r) = PStr ''AS15169'' \<and>
               list_all is_str [country (location r), country_code (location r),
                 city (location r), region (location r), postal_code (location r),
                 timezone (location r), organization (network r), isp (network r),
                 asn (network r)]
    | Inl e \<Rightarrow> False)"
proof -
  obtain r where r: "process_ipapi_response ''8.8.8.8'' ''N/A'' ipapi_answer = Inr r"
    by (simp add: process_ipapi_response_def ipapi_answer_def Let_def)
  from normalizers_pass_values_through [of "''8.8.8.8''" "''N/A''" ipapi_answer r] r
  have "\<exists>d. ipapi_answer = Object d \<and>
      supplied_or d ''country_name'' ''Unknown'' (country (location r)) \<and>
      supplied_or d ''country_code'' ''N/A'' (country_code (location r)) \<and>
      supplied_or d ''city'' ''Unknown'' (city (location r)) \<and>
      supplied_or d ''asn'' ''Unknown'' (asn (network r)) \<and>
      list_all is_str [country (location r), country_code (location r),
         city (location r), region (location r), postal_code (location r),
         timezone (location r), organization (network r), isp (network r), asn (network r)]
       = list_all (text_or_absent d) [''country_name'', ''country_code'', ''city'', ''region'',
          ''postal'', ''timezone'', ''org'', ''isp'', ''asn'']"
    by blast
  then have "country (location r) = PStr ''United States'' \<and>
      country_code (location r) = PStr ''N/A'' \<and>
      city (location r) = PStr ''Unknown'' \<and>
      asn (network r) = PStr ''AS15169'' \<and>
      list_all is_str [country (location r), country_code (location r),
        city (location r), region (location r), postal_code (location r),
        timezone (location r), organization (network r), isp (network r),
        asn (network r)]"
    by (auto simp: ipapi_answer_def supplied_or_def text_or_absent_def)
  then show ?thesis
    by (simp add: r)
qed

section \<open>Decimal numerals\<close>

lemma char_of_48: "char_of (48 :: nat) = CHR ''0''"
  by code_simp

lemma of_char_digit_char: "d < 10 \<Longrightarrow> (of_char (digit_char d) :: nat) = 48 + d"
  by (simp add: digit_char_def)

lemma is_digit_digit_char: "d < 10 \<Longrightarrow> is_digit (digit_char d)"
  by (simp add: is_digit_def of_char_digit_char)

lemma digit_val_digit_char: "d < 10 \<Longrightarrow> digit_val (digit_char d) = d"
  by (simp add: digit_val_def of_char_digit_char)

lemma digit_char_digit_val: "is_digit c \<Longrightarrow> digit_char (digit_val c) = c"
  by (simp add: is_digit_def digit_val_def digit_char_def)

lemma digit_val_less: "is_digit c \<Longrightarrow> digit_val c < 10"
  by (auto simp: is_digit_def digit_val_def)

lemma digit_val_zero: "is_digit c \<Longrightarrow> digit_val c = 0 \<longleftrightarrow> c = CHR ''0''"
proof
  assume d: "is_digit c" and "digit_val c = 0"
  then have "digit_char (digit_val c) = digit_char 0" by simp
  with d show "c = CHR ''0''"
    by (simp add: digit_char_digit_val) (simp add: digit_char_def char_of_48)
next
  assume "c = CHR ''0''"
  then show "digit_val c = 0" by (simp add: digit_val_def)
qed

lemma nat_of_digits_snoc: "nat_of_digits (xs @ [c]) = 10 * nat_of_digits xs + digit_val c"
  by (simp add: nat_of_digits_def)

lemma str_nat_digits: "list_all is_digit (str_nat n)"
proof (induction n rule: str_nat.induct)
  case (1 n)
  show ?case
  proof (cases "n < 10")
    case True
    then show ?thesis by (simp add: str_nat.simps [of n] is_digit_digit_char)
  next
    case False
    with 1 show ?thesis by (simp add: str_nat.simps [of n] is_digit_digit_char)
  qed
qed

lemma str_nat_not_Nil: "str_nat n \<noteq> []"
  by (subst str_nat.simps) simp

lemma nat_of_digits_str_nat: "nat_of_digits (str_nat n) = n"
proof (induction n rule: str_nat.induct)
  case (1 n)
  show ?case
  proof (cases "n < 10")
    case True
    then show ?thesis
      by (simp add: str_nat.simps [of n] nat_of_digits_def digit_val_digit_char)
  next
    case False
    with 1 show ?thesis
      by (simp add: str_nat.simps [of n] nat_of_digits_snoc digit_val_digit_char)
  qed
qed

lemma hd_str_nat: "hd (str_nat n) = CHR ''0'' \<longleftrightarrow> n = 0"
proof (induction n rule: str_nat.induct)
  case (1 n)
  show ?case
  proof (cases "n < 10")
    case True
    then have "hd (str_nat n) = digit_char n" by (simp add: str_nat.simps [of n])
    moreover have "digit_char n = CHR ''0'' \<longleftrightarrow> n = 0"
      using True digit_val_zero [OF is_digit_digit_char [OF True]]
      by (simp add: digit_val_digit_char)
    ultimately show ?thesis by simp
  next
    case False
    then have "hd (str_nat n) = hd (str_nat (n div 10))"
      by (simp add: str_nat.simps [of n] str_nat_not_Nil)
    with 1 False show ?thesis by simp
  qed
qed

lemma length_str_nat_255: "n \<le> 255 \<Longrightarrow> length (str_nat n) \<le> 3"
  by (simp add: str_nat.simps [of n] str_nat.simps [of "n div 10"]
      str_nat.simps [of "n div 10 div 10"])

lemma str_nat_of_digits:
  "list_all is_digit s \<Longrightarrow> s \<noteq> [] \<Longrightarrow> s = ''0'' \<or> hd s \<noteq> CHR ''0'' \<Longrightarrow>
   str_nat (nat_of_digits s) = s \<and> (hd s \<noteq> CHR ''0'' \<longrightarrow> 1 \<le> nat_of_digits s)"
proof (induction s rule: rev_induct)
  case Nil
  then show ?case by simp
next
  case (snoc c xs)
  from snoc.prems have c: "is_digit c" and xs: "list_all is_digit xs" by simp_all
  show ?case
  proof (cases "xs = []")
    case True
    with c show ?thesis
      by (simp add: nat_of_digits_def str_nat.simps digit_val_less digit_char_digit_val
          digit_val_zero [symmetric])
  next
    case False
    with snoc.prems have h: "hd xs \<noteq> CHR ''0''" by (cases xs) auto
    with snoc.IH xs False have ih: "str_nat (nat_of_digits xs) = xs"
      and pos: "1 \<le> nat_of_digits xs"
      by simp_all
    have v: "nat_of_digits (xs @ [c]) = 10 * nat_of_digits xs + digit_val c"
      by (rule nat_of_digits_snoc)
    have "\<not> 10 * nat_of_digits xs + digit_val c < 10" using pos by simp
    moreover have "(10 * nat_of_digits xs + digit_val c) div 10 = nat_of_digits xs"
      using digit_val_less [OF c] by simp
    moreover have "(10 * nat_of_digits xs + digit_val c) mod 10 = digit_val c"
      using digit_val_less [OF c] by simp
    ultimately have "str_nat (nat_of_digits (xs @ [c])) = xs @ [c]"
      by (simp add: v str_nat.simps [of "10 * nat_of_digits xs + digit_val c"] ih
          digit_char_digit_val [OF c])
    moreover have "1 \<le> nat_of_digits (xs @ [c])" using pos by (simp add: v)
    ultimately show ?thesis by simp
  qed
qed

lemma parse_octet_iff: "parse_octet x = Some n \<longleftrightarrow> n \<le> 255 \<and> x = str_nat n"
proof
  assume p: "parse_octet x = Some n"
  then have d: "list_all is_digit x" and ne: "x \<noteq> []"
    and z: "x = ''0'' \<or> hd x \<noteq> CHR ''0''" and le: "nat_of_digits x \<le> 255"
    and n: "n = nat_of_digits x"
    by (auto simp: parse_octet_def split: if_splits)
  from str_nat_of_digits [OF d ne z] n le show "n \<le> 255 \<and> x = str_nat n" by simp
next
  assume "n \<le> 255 \<and> x = str_nat n"
  then have le: "n \<le> 255" and x: "x = str_nat n" by simp_all
  have "str_nat n = ''0''" if "hd (str_nat n) = CHR ''0''"
    using that by (simp add: hd_str_nat) (simp add: str_nat.simps digit_char_def char_of_48)
  then show "parse_octet x = Some n"
    using le length_str_nat_255 [OF le]
    by (auto simp: parse_octet_def x str_nat_not_Nil str_nat_digits nat_of_digits_str_nat)
qed

lemma parse_octet_dec_octet: "parse_octet x \<noteq> None \<longleftrightarrow> dec_octet x"
  using parse_octet_iff [of x] by (auto simp: dec_octet_def)

section \<open>Splitting and joining\<close>

lemma split_not_Nil: "split c s \<noteq> []"
  by (induction s) auto

lemma join_Cons: "ps \<noteq> [] \<Longrightarrow> join c (p # ps) = p @ c # join c ps"
  by (cases ps) auto

lemma join_split: "join c (split c s) = s"
proof (induction s)
  case Nil
  then show ?case by simp
next
  case (Cons x xs)
  obtain p ps where ps: "split c xs = p # ps"
    using split_not_Nil [of c xs] by (cases "split c xs") auto
  show ?case
  proof (cases "x = c")
    case True
    then show ?thesis using Cons by (simp add: join_Cons split_not_Nil)
  next
    case False
    then show ?thesis using Cons ps by (cases ps) auto
  qed
qed

lemma split_free: "p \<in> set (split c s) \<Longrightarrow> c \<notin> set p"
proof (induction s arbitrary: p)
  case Nil
  then show ?case by simp
next
  case (Cons x xs)
  obtain q qs where qs: "split c xs = q # qs"
    using split_not_Nil [of c xs] by (cases "split c xs") auto
  from Cons show ?case
    by (auto simp: qs split: if_splits)
qed

lemma split_whole: "c \<notin> set p \<Longrightarrow> split c p = [p]"
  by (induction p) auto

lemma split_append: "c \<notin> set p \<Longrightarrow> split c (p @ c # s) = p # split c s"
  by (induction p) auto

lemma split_join:
  "xs \<noteq> [] \<Longrightarrow> \<forall>x \<in> set xs. c \<notin> set x \<Longrightarrow> split c (join c xs) = xs"
proof (induction xs)
  case Nil
  then show ?case by simp
next
  case (Cons x xs)
  show ?case
  proof (cases "xs = []")
    case True
    with Cons.prems show ?thesis by (simp add: split_whole)
  next
    case False
    with Cons show ?thesis by (simp add: join_Cons split_append)
  qed
qed

lemma those_opt_map:
  "those_opt (map f xs) \<noteq> None \<longleftrightarrow> (\<forall>x \<in> set xs. f x \<noteq> None)"
proof (induction xs)
  case Nil
  then show ?case by simp
next
  case (Cons x xs)
  then show ?case
    by (cases "f x") (auto split: option.splits)
qed

section \<open>Dotted quads\<close>

lemma dec_octet_chars: "dec_octet x \<Longrightarrow> list_all is_digit x \<and> x \<noteq> []"
  by (auto simp: dec_octet_def str_nat_digits str_nat_not_Nil)

lemma digits_free:
  "list_all is_digit x \<Longrightarrow>
   CHR ''.'' \<notin> set x \<and> CHR ''/'' \<notin> set x \<and> CHR '':'' \<notin> set x \<and> CHR ''%'' \<notin> set x"
  by (induction x) (auto simp: is_digit_def)

lemma ipv4_int_from_string_iff: "ipv4_int_from_string s \<noteq> None \<longleftrightarrow> dotted_quad s"
proof
  assume ok: "ipv4_int_from_string s \<noteq> None"
  then have len: "length (split (CHR ''.'') s) = 4"
    and all: "those_opt (map parse_octet (split (CHR ''.'') s)) \<noteq> None"
    by (auto simp: ipv4_int_from_string_def Let_def split: if_splits option.splits)
  from len obtain a b c d where parts: "split (CHR ''.'') s = [a, b, c, d]"
    by (auto simp: length_Suc_conv numeral_eq_Suc)
  from all have "\<forall>x \<in> set (split (CHR ''.'') s). parse_octet x \<noteq> None"
    by (simp only: those_opt_map)
  then have "\<forall>x \<in> set (split (CHR ''.'') s). dec_octet x"
    using parse_octet_dec_octet by blast
  with parts have "dec_octet a" "dec_octet b" "dec_octet c" "dec_octet d"
    by simp_all
  moreover have "s = a @ ''.'' @ b @ ''.'' @ c @ ''.'' @ d"
    using join_split [of "CHR ''.''" s] parts by simp
  ultimately show "dotted_quad s"
    unfolding dotted_quad_def by blast
next
  assume "dotted_quad s"
  then obtain a b c d where o: "dec_octet a" "dec_octet b" "dec_octet c" "dec_octet d"
    and s: "s = a @ ''.'' @ b @ ''.'' @ c @ ''.'' @ d"
    unfolding dotted_quad_def by blast
  have j: "s = join (CHR ''.'') [a, b, c, d]" by (simp add: s)
  have f: "\<forall>x \<in> set [a, b, c, d]. CHR ''.'' \<notin> set x"
    using o dec_octet_chars digits_free by auto
  have parts: "split (CHR ''.'') s = [a, b, c, d]"
    unfolding j by (rule split_join) (use f in simp_all)
  have "\<forall>x \<in> set [a, b, c, d]. parse_octet x \<noteq> None"
    using o parse_octet_dec_octet by auto
  then have "those_opt (map parse_octet [a, b, c, d]) \<noteq> None"
    by (simp only: those_opt_map)
  moreover have "s \<noteq> []" using o(1) dec_octet_chars by (auto simp: s)
  ultimately show "ipv4_int_from_string s \<noteq> None"
    by (auto simp: ipv4_int_from_string_def parts)
qed

lemma dotted_quad_chars:
  assumes "dotted_quad s"
  shows "CHR ''/'' \<notin> set s" and "CHR '':'' \<notin> set s" and "CHR ''%'' \<notin> set s"
    and "CHR ''.'' \<in> set s" and "s \<noteq> []"
proof -
  from assms obtain a b c d where o: "dec_octet a" "dec_octet b" "dec_octet c" "dec_octet d"
    and s: "s = a @ ''.'' @ b @ ''.'' @ c @ ''.'' @ d"
    unfolding dotted_quad_def by blast
  from o have "\<forall>x \<in> set [a, b, c, d].
      CHR ''/'' \<notin> set x \<and> CHR '':'' \<notin> set x \<and> CHR ''%'' \<notin> set x"
    using dec_octet_chars digits_free by auto
  then show "CHR ''/'' \<notin> set s" and "CHR '':'' \<notin> set s" and "CHR ''%'' \<notin> set s"
    by (auto simp: s)
  show "CHR ''.'' \<in> set s" and "s \<noteq> []" by (simp_all add: s)
qed

lemma IPv4Address_iff: "IPv4Address s \<noteq> None \<longleftrightarrow> dotted_quad s"
  using ipv4_int_from_string_iff [of s] dotted_quad_chars(1) [of s]
  by (auto simp: IPv4Address_def)

section \<open>Hextets\<close>

lemma parse_hextet_iff: "parse_hextet h \<noteq> None \<longleftrightarrow> hextet h"
  by (cases h) (auto simp: parse_hextet_def hextet_def)

lemma hextets_parse:
  "those_opt (map parse_hextet hs) \<noteq> None \<longleftrightarrow> list_all hextet hs"
  by (simp only: those_opt_map parse_hextet_iff list_all_iff)

lemma hex_char_table: "\<forall>d \<in> set [0 ..< 16]. is_hex_digit (hex_char d)"
  by code_simp

lemma is_hex_digit_hex_char: "d < 16 \<Longrightarrow> is_hex_digit (hex_char d)"
  using hex_char_table by simp

lemma hex_str_digits: "list_all is_hex_digit (hex_str n)"
proof (induction n rule: hex_str.induct)
  case (1 n)
  show ?case
  proof (cases "n < 16")
    case True
    then show ?thesis by (simp add: hex_str.simps [of n] is_hex_digit_hex_char)
  next
    case False
    with 1 show ?thesis by (simp add: hex_str.simps [of n] is_hex_digit_hex_char)
  qed
qed

lemma hex_str_not_Nil: "hex_str n \<noteq> []"
  by (subst hex_str.simps) simp

lemma length_hex_str: "n < 65536 \<Longrightarrow> length (hex_str n) \<le> 4"
  by (simp add: hex_str.simps [of n] hex_str.simps [of "n div 16"]
      hex_str.simps [of "n div 16 div 16"] hex_str.simps [of "n div 16 div 16 div 16"])

lemma hextet_hex_str: "n < 65536 \<Longrightarrow> hextet (hex_str n)"
proof -
  assume n: "n < 65536"
  have "1 \<le> length (hex_str n)"
    using hex_str_not_Nil [of n] by (cases "hex_str n") simp_all
  with length_hex_str [OF n] hex_str_digits [of n] show ?thesis
    unfolding hextet_def by blast
qed

lemma hextet_not_Nil: "hextet h \<Longrightarrow> h \<noteq> []"
  by (auto simp: hextet_def)

lemma is_hex_digit_free:
  "is_hex_digit c \<Longrightarrow>
   c \<noteq> CHR '':'' \<and> c \<noteq> CHR ''.'' \<and> c \<noteq> CHR ''%'' \<and> c \<noteq> CHR ''/''"
  by (auto simp: is_hex_digit_def)

lemma hextet_free:
  assumes "hextet h"
  shows "CHR '':'' \<notin> set h \<and> CHR ''.'' \<notin> set h \<and> CHR ''%'' \<notin> set h \<and> CHR ''/'' \<notin> set h"
proof -
  from assms have "\<forall>c \<in> set h. is_hex_digit c"
    by (simp add: hextet_def list_all_iff)
  with is_hex_digit_free show ?thesis by blast
qed

section \<open>The place of the gap\<close>

lemma filter_single:
  "k \<in> set xs \<Longrightarrow> distinct xs \<Longrightarrow> (\<forall>x \<in> set xs. P x \<longleftrightarrow> x = k) \<Longrightarrow> filter P xs = [k]"
proof (induction xs)
  case Nil
  then show ?case by simp
next
  case (Cons x xs)
  show ?case
  proof (cases "x = k")
    case True
    with Cons.prems have "\<forall>y \<in> set xs. \<not> P y" by auto
    then have "filter P xs = []" by (simp add: filter_empty_conv)
    with True Cons.prems show ?thesis by simp
  next
    case False
    with Cons show ?thesis by auto
  qed
qed

lemma skip_indices_Nil:
  "skip_indices parts = [] \<longleftrightarrow> (\<forall>i. 1 \<le> i \<and> i < length parts - 1 \<longrightarrow> parts ! i \<noteq> [])"
  by (auto simp: skip_indices_def filter_empty_conv)

lemma skip_indices_single:
  assumes "skip_indices parts = [k]"
  shows "1 \<le> k" and "k < length parts - 1" and "parts ! k = []"
proof -
  have "k \<in> set (skip_indices parts)" using assms by simp
  then show "1 \<le> k" and "k < length parts - 1" and "parts ! k = []"
    by (auto simp: skip_indices_def)
qed

lemma length_gap:
  "length (gap hs ts) = (if hs = [] then 1 else length hs) + 1 + (if ts = [] then 1 else length ts)"
  by (simp add: gap_def)

lemma skip_indices_mid:
  assumes A: "A \<noteq> []" and B: "B \<noteq> []"
    and a: "\<And>i. 1 \<le> i \<Longrightarrow> i < length A \<Longrightarrow> A ! i \<noteq> []"
    and b: "\<And>j. j < length B - 1 \<Longrightarrow> B ! j \<noteq> []"
  shows "skip_indices (A @ [[]] @ B) = [length A]"
proof -
  let ?p = "A @ [[]] @ B"
  have len: "length ?p - 1 = length A + length B" by simp
  have "(?p ! i = []) \<longleftrightarrow> i = length A" if i1: "1 \<le> i" and i2: "i < length ?p - 1" for i
  proof -
    consider "i < length A" | "i = length A" | "length A < i" by linarith
    then show ?thesis
    proof cases
      case 1
      then show ?thesis using a [OF i1] by (simp add: nth_append)
    next
      case 2
      then show ?thesis by (simp add: nth_append)
    next
      case 3
      define j where "j = i - length A - 1"
      with 3 have j: "i = length A + 1 + j" by simp
      with i2 len have "j < length B - 1" by simp
      from b [OF this] have "B ! j \<noteq> []" .
      moreover have "?p ! i = B ! j" by (simp add: j nth_append)
      ultimately show ?thesis using 3 by simp
    qed
  qed
  then have "\<forall>i \<in> set [1 ..< length ?p - 1]. (?p ! i = []) \<longleftrightarrow> i = length A"
    by simp
  moreover have "length A \<in> set [1 ..< length ?p - 1]"
  proof -
    have "0 < length A" and "0 < length B" using A B by simp_all
    then have "1 \<le> length A \<and> length A < length A + length B"
      by (simp add: Suc_le_eq)
    then show ?thesis by (simp only: len set_upt atLeastLessThan_iff)
  qed
  ultimately show ?thesis
    unfolding skip_indices_def by (intro filter_single) simp_all
qed

lemma hextets_nth: "list_all hextet hs \<Longrightarrow> i < length hs \<Longrightarrow> hs ! i \<noteq> []"
  using hextet_not_Nil by (auto simp: list_all_length)

lemma skip_indices_gap:
  assumes "list_all hextet hs" and "list_all hextet ts"
  shows "skip_indices (gap hs ts) = [if hs = [] then 1 else length hs]"
proof -
  let ?A = "if hs = [] then [[]] else hs"
  let ?B = "if ts = [] then [[]] else ts"
  have "skip_indices (?A @ [[]] @ ?B) = [length ?A]"
  proof (rule skip_indices_mid)
    show "?A \<noteq> []" and "?B \<noteq> []" by simp_all
    show "?A ! i \<noteq> []" if "1 \<le> i" and "i < length ?A" for i
      using that hextets_nth [OF assms(1), of i] by (cases "hs = []") simp_all
    show "?B ! j \<noteq> []" if "j < length ?B - 1" for j
      using that hextets_nth [OF assms(2), of j] by (cases "ts = []") simp_all
  qed
  then show ?thesis by (simp add: gap_def)
qed

section \<open>The hextets of an IPv6 address\<close>

lemma hextets_to_int_full:
  assumes h: "list_all hextet parts" and len: "length parts = 8"
  shows "hextets_to_int parts \<noteq> None"
proof -
  have s: "skip_indices parts = []"
    unfolding skip_indices_Nil using hextets_nth [OF h] len by simp
  have ne: "parts \<noteq> []" using len by auto
  have "hd parts \<noteq> []" using hextets_nth [OF h, of 0] len ne by (simp add: hd_conv_nth)
  moreover have "last parts \<noteq> []"
    using hextets_nth [OF h, of 7] len ne by (simp add: last_conv_nth)
  moreover obtain v where "those_opt (map parse_hextet parts) = Some v"
    using h hextets_parse [of parts] by auto
  ultimately show ?thesis
    by (simp add: hextets_to_int_def s len)
qed

lemma hextets_to_int_gap:
  assumes hs: "list_all hextet hs" and ts: "list_all hextet ts"
    and len: "length hs + length ts \<le> 7"
  shows "hextets_to_int (gap hs ts) \<noteq> None"
proof -
  let ?p = "gap hs ts"
  let ?k = "if hs = [] then 1 else length hs"
  have s: "skip_indices ?p = [?k]" by (rule skip_indices_gap [OF hs ts])
  have l9: "\<not> 9 < length ?p" using len by (simp add: length_gap)
  have hd: "hd ?p = [] \<longleftrightarrow> hs = []"
    using hextets_nth [OF hs, of 0] by (cases hs) (simp_all add: gap_def)
  have last: "last ?p = [] \<longleftrightarrow> ts = []"
  proof (cases "ts = []")
    case True
    then show ?thesis by (simp add: gap_def)
  next
    case False
    then have "last ?p = last ts" by (simp add: gap_def)
    moreover have "last ts \<noteq> []"
      using hextets_nth [OF ts, of "length ts - 1"] False by (simp add: last_conv_nth)
    ultimately show ?thesis using False by simp
  qed
  define hi where "hi = (if hd ?p = [] then ?k - 1 else ?k)"
  define lo where "lo = (if last ?p = [] then length ?p - ?k - 1 - 1 else length ?p - ?k - 1)"
  have hi: "hi = length hs" by (simp add: hi_def hd)
  have lo: "lo = length ts" by (auto simp: lo_def last length_gap)
  have th: "take hi ?p = hs" by (simp add: hi gap_def)
  have dr: "drop (length ?p - lo) ?p = ts" by (simp add: lo gap_def)
  obtain v1 where v1: "those_opt (map parse_hextet hs) = Some v1"
    using hs hextets_parse [of hs] by auto
  obtain v2 where v2: "those_opt (map parse_hextet ts) = Some v2"
    using ts hextets_parse [of ts] by auto
  have c1: "\<not> (hd ?p = [] \<and> hi \<noteq> 0)" using hd hi by simp
  have c2: "\<not> (last ?p = [] \<and> lo \<noteq> 0)" using last lo by simp
  have c3: "\<not> 8 < hi + lo + 1" using len hi lo by simp
  have "hextets_to_int ?p =
      (if hd ?p = [] \<and> hi \<noteq> 0 then None
       else if last ?p = [] \<and> lo \<noteq> 0 then None
       else if 8 < hi + lo + 1 then None
       else (case (those_opt (map parse_hextet (take hi ?p)),
                   those_opt (map parse_hextet (drop (length ?p - lo) ?p))) of
               (Some hi', Some lo') \<Rightarrow>
                 Some (foldl (\<lambda>a h. 65536 * a + h) 0
                   (hi' @ replicate (8 - (hi + lo)) 0 @ lo'))
             | _ \<Rightarrow> None))"
    unfolding hextets_to_int_def hi_def lo_def using l9 by (simp only: s Let_def list.case if_False)
  then show ?thesis
    by (simp only: c1 c2 c3 th dr v1 v2 if_False) simp
qed

lemma drop_to_last: "xs \<noteq> [] \<Longrightarrow> drop (length xs - 1) xs = [last xs]"
  by (cases xs rule: rev_cases) simp_all

lemma hextets_to_int_shape:
  assumes ok: "hextets_to_int parts \<noteq> None"
  shows "(list_all hextet parts \<and> length parts = 8) \<or>
         (\<exists>hs ts. list_all hextet hs \<and> list_all hextet ts \<and> length hs + length ts \<le> 7 \<and>
            parts = gap hs ts)"
proof (cases "skip_indices parts")
  case Nil
  with ok have "length parts = 8" and "those_opt (map parse_hextet parts) \<noteq> None"
    by (auto simp: hextets_to_int_def split: if_splits option.splits)
  then have "length parts = 8" and "list_all hextet parts"
    by (simp_all only: hextets_parse)
  then show ?thesis by blast
next
  case (Cons k rest)
  with ok have rest: "rest = []"
    by (cases rest) (auto simp: hextets_to_int_def split: if_splits)
  with Cons have s: "skip_indices parts = [k]" by simp
  let ?n = "length parts"
  have k1: "1 \<le> k" and k2: "k < ?n - 1" and kn: "parts ! k = []"
    using skip_indices_single [OF s] by simp_all
  have ne: "parts \<noteq> []" using k2 by auto
  define hi where "hi = (if hd parts = [] then k - 1 else k)"
  define lo where "lo = (if last parts = [] then ?n - k - 1 - 1 else ?n - k - 1)"
  have unf: "hextets_to_int parts =
      (if 9 < ?n then None
       else if hd parts = [] \<and> hi \<noteq> 0 then None
       else if last parts = [] \<and> lo \<noteq> 0 then None
       else if 8 < hi + lo + 1 then None
       else (case (those_opt (map parse_hextet (take hi parts)),
                   those_opt (map parse_hextet (drop (?n - lo) parts))) of
               (Some hi', Some lo') \<Rightarrow>
                 Some (foldl (\<lambda>a h. 65536 * a + h) 0
                   (hi' @ replicate (8 - (hi + lo)) 0 @ lo'))
             | _ \<Rightarrow> None))"
    unfolding hextets_to_int_def hi_def lo_def by (simp only: s Let_def list.case)
  from ok have c1: "\<not> (hd parts = [] \<and> hi \<noteq> 0)" and c2: "\<not> (last parts = [] \<and> lo \<noteq> 0)"
    and c3: "\<not> 8 < hi + lo + 1"
    and p1: "those_opt (map parse_hextet (take hi parts)) \<noteq> None"
    and p2: "those_opt (map parse_hextet (drop (?n - lo) parts)) \<noteq> None"
    unfolding unf by (auto split: if_splits option.splits)
  define hs where "hs = take hi parts"
  define ts where "ts = drop (?n - lo) parts"
  have hhs: "list_all hextet hs"
    using p1 unfolding hs_def by (simp only: hextets_parse)
  have hts: "list_all hextet ts"
    using p2 unfolding ts_def by (simp only: hextets_parse)
  have hik: "hi \<le> k" by (simp add: hi_def)
  have lon: "lo \<le> ?n" by (simp add: lo_def)
  have lhs: "length hs = hi" using hik k2 by (simp add: hs_def)
  have lts: "length ts = lo" using lon by (simp add: ts_def)
  have A: "(if hs = [] then [[]] else hs) = take k parts"
  proof (cases "hd parts = []")
    case True
    with c1 have "hi = 0" by simp
    with True k1 have k: "k = 1" by (simp add: hi_def)
    have "take 1 parts = [hd parts]" using ne by (cases parts) simp_all
    with True \<open>hi = 0\<close> k show ?thesis by (simp add: hs_def)
  next
    case False
    then have "hi = k" by (simp add: hi_def)
    moreover have "take k parts \<noteq> []" using k1 ne by (cases parts; cases k) simp_all
    ultimately show ?thesis by (simp add: hs_def)
  qed
  have B: "(if ts = [] then [[]] else ts) = drop (Suc k) parts"
  proof (cases "last parts = []")
    case True
    with c2 have l0: "lo = 0" by simp
    with True k2 have n: "?n = k + 2" by (simp add: lo_def)
    have "drop (Suc k) parts = [last parts]"
      using drop_to_last [OF ne] n by simp
    with True l0 show ?thesis by (simp add: ts_def)
  next
    case False
    then have "lo = ?n - k - 1" by (simp add: lo_def)
    with k2 have "?n - lo = Suc k" by simp
    moreover have "drop (Suc k) parts \<noteq> []" using k2 by simp
    ultimately show ?thesis by (simp add: ts_def)
  qed
  have "parts = take k parts @ parts ! k # drop (Suc k) parts"
    using k2 by (intro id_take_nth_drop) simp
  then have "parts = gap hs ts"
    unfolding gap_def A B by (simp add: kn)
  moreover have "length hs + length ts \<le> 7" using c3 lhs lts by simp
  ultimately show ?thesis using hhs hts by blast
qed

lemma hextets_to_int_iff:
  "hextets_to_int parts \<noteq> None \<longleftrightarrow>
     (list_all hextet parts \<and> length parts = 8) \<or>
     (\<exists>hs ts. list_all hextet hs \<and> list_all hextet ts \<and> length hs + length ts \<le> 7 \<and>
        parts = gap hs ts)"
  using hextets_to_int_shape [of parts] hextets_to_int_full [of parts] hextets_to_int_gap
  by blast

section \<open>IPv6 texts\<close>

lemma join_append:
  "xs \<noteq> [] \<Longrightarrow> ys \<noteq> [] \<Longrightarrow> join c (xs @ ys) = join c xs @ c # join c ys"
proof (induction xs)
  case Nil
  then show ?case by simp
next
  case (Cons x xs)
  then show ?case by (cases "xs = []") (simp_all add: join_Cons)
qed

lemma join_gap:
  "join (CHR '':'') (gap hs ts) = join (CHR '':'') hs @ ''::'' @ join (CHR '':'') ts"
proof -
  have "join (CHR '':'') (gap hs ts)
      = join (CHR '':'') (if hs = [] then [[]] else hs)
        @ CHR '':'' # join (CHR '':'') ([] # (if ts = [] then [[]] else ts))"
    unfolding gap_def by (subst join_append) simp_all
  also have "join (CHR '':'') ([] # (if ts = [] then [[]] else ts))
      = CHR '':'' # join (CHR '':'') (if ts = [] then [[]] else ts)"
    by (simp add: join_Cons)
  finally show ?thesis by (cases "hs = []"; cases "ts = []") simp_all
qed

lemma join_not_Nil: "2 \<le> length fs \<Longrightarrow> join c fs \<noteq> []"
proof (cases fs)
  case Nil
  assume "2 \<le> length fs"
  with Nil show ?thesis by simp
next
  case (Cons x xs)
  assume "2 \<le> length fs"
  with Cons have "xs \<noteq> []" by auto
  with Cons show ?thesis by (simp add: join_Cons)
qed

lemma set_join: "set (join c fs) \<subseteq> insert c (\<Union> (set ` set fs))"
  by (induction c fs rule: join.induct) auto

lemma hextets_free: "list_all hextet hs \<Longrightarrow> h \<in> set hs \<Longrightarrow> CHR '':'' \<notin> set h"
  using hextet_free by (auto simp: list_all_iff)

lemma gap_free:
  assumes "list_all hextet hs" and "\<forall>t \<in> set ts. CHR '':'' \<notin> set t"
  shows "\<forall>f \<in> set (gap hs ts). CHR '':'' \<notin> set f"
  using assms hextets_free [OF assms(1)] by (auto simp: gap_def)

lemma gap_length_ge3: "3 \<le> length (gap hs ts)"
  by (cases hs; cases ts) (simp_all add: gap_def)

lemma last_gap: "ts \<noteq> [] \<Longrightarrow> last (gap hs ts) = last ts"
  by (simp add: gap_def)

lemma butlast_gap_snoc: "butlast (gap hs (ts @ [q])) @ r = gap hs (ts @ r)" if "r \<noteq> []"
proof -
  have "gap hs (ts @ [q]) = ((if hs = [] then [[]] else hs) @ [[]] @ ts) @ [q]"
    by (simp add: gap_def)
  then have "butlast (gap hs (ts @ [q])) = (if hs = [] then [[]] else hs) @ [[]] @ ts"
    by (simp only: butlast_snoc)
  with that show ?thesis by (simp add: gap_def)
qed

text \<open>What the parser does on the text made of given fields.\<close>

lemma ipv6_int_from_fields:
  assumes len: "3 \<le> length fs" and free: "\<forall>f \<in> set fs. CHR '':'' \<notin> set f"
  shows "ipv6_int_from_string (join (CHR '':'') fs) =
     (if CHR ''.'' \<in> set (last fs)
      then (case IPv4Address (last fs) of
              None \<Rightarrow> None
            | Some ipv4_int \<Rightarrow>
                hextets_to_int (butlast fs @ [hex_str (ipv4_int div 65536 mod 65536),
                                              hex_str (ipv4_int mod 65536)]))
      else hextets_to_int fs)"
proof -
  have ne: "fs \<noteq> []" using len by auto
  have sp: "split (CHR '':'') (join (CHR '':'') fs) = fs"
    by (rule split_join [OF ne free])
  have "join (CHR '':'') fs \<noteq> []" using len by (intro join_not_Nil) simp
  then show ?thesis
    using len by (simp add: ipv6_int_from_string_def sp Let_def)
qed

lemma hex_halves:
  "hextet (hex_str (m div 65536 mod 65536))" and "hextet (hex_str (m mod 65536))"
  by (simp_all add: hextet_hex_str)

lemma ipv6_text_accepted:
  assumes "ipv6_text s"
  shows "ipv6_int_from_string s \<noteq> None"
proof -
  from assms consider
    (full) hs where "list_all hextet hs" "length hs = 8" "s = join (CHR '':'') hs"
  | (full4) hs q where "list_all hextet hs" "length hs = 6" "dotted_quad q"
      "s = join (CHR '':'') (hs @ [q])"
  | (gap) hs ts where "list_all hextet hs" "list_all hextet ts" "length hs + length ts \<le> 7"
      "s = join (CHR '':'') hs @ ''::'' @ join (CHR '':'') ts"
  | (gap4) hs ts q where "list_all hextet hs" "list_all hextet ts" "dotted_quad q"
      "length hs + length ts \<le> 5"
      "s = join (CHR '':'') hs @ ''::'' @ join (CHR '':'') (ts @ [q])"
    unfolding ipv6_text_def by blast
  then show ?thesis
  proof cases
    case full
    have ne: "hs \<noteq> []" using full(2) by auto
    have "last hs \<in> set hs" using ne by simp
    then have nodot: "CHR ''.'' \<notin> set (last hs)"
      using full(1) hextet_free by (auto simp: list_all_iff)
    have "ipv6_int_from_string s = hextets_to_int hs"
      unfolding full(3) using full(2) hextets_free [OF full(1)] nodot
      by (subst ipv6_int_from_fields) simp_all
    then show ?thesis using hextets_to_int_full [OF full(1) full(2)] by simp
  next
    case full4
    obtain m where m: "IPv4Address q = Some m"
      using full4(3) IPv4Address_iff [of q] by auto
    have free: "\<forall>f \<in> set (hs @ [q]). CHR '':'' \<notin> set f"
      using hextets_free [OF full4(1)] dotted_quad_chars(2) [OF full4(3)] by auto
    have "ipv6_int_from_string s
        = hextets_to_int (hs @ [hex_str (m div 65536 mod 65536), hex_str (m mod 65536)])"
      unfolding full4(4) using full4(2) free dotted_quad_chars(4) [OF full4(3)] m
      by (subst ipv6_int_from_fields) simp_all
    moreover have "hextets_to_int
        (hs @ [hex_str (m div 65536 mod 65536), hex_str (m mod 65536)]) \<noteq> None"
      by (rule hextets_to_int_full) (simp_all add: full4(1,2) hextet_hex_str)
    ultimately show ?thesis by simp
  next
    case gap
    have s: "s = join (CHR '':'') (gap hs ts)" by (simp add: gap(4) join_gap)
    have free: "\<forall>f \<in> set (gap hs ts). CHR '':'' \<notin> set f"
      using gap_free [OF gap(1)] hextets_free [OF gap(2)] by blast
    have nodot: "CHR ''.'' \<notin> set (last (gap hs ts))"
    proof (cases "ts = []")
      case True
      then show ?thesis by (simp add: gap_def)
    next
      case False
      then have "last (gap hs ts) \<in> set ts" by (simp add: last_gap)
      then show ?thesis using gap(2) hextet_free by (auto simp: list_all_iff)
    qed
    have "3 \<le> length (gap hs ts)" by (rule gap_length_ge3)
    then have "ipv6_int_from_string s = hextets_to_int (gap hs ts)"
      unfolding s using free nodot by (subst ipv6_int_from_fields) simp_all
    then show ?thesis using hextets_to_int_gap [OF gap(1,2,3)] by simp
  next
    case gap4
    let ?x = "hex_str"
    obtain m where m: "IPv4Address q = Some m"
      using gap4(3) IPv4Address_iff [of q] by auto
    have s: "s = join (CHR '':'') (gap hs (ts @ [q]))" by (simp add: gap4(5) join_gap)
    have "\<forall>t \<in> set (ts @ [q]). CHR '':'' \<notin> set t"
      using hextets_free [OF gap4(2)] dotted_quad_chars(2) [OF gap4(3)] by auto
    then have free: "\<forall>f \<in> set (gap hs (ts @ [q])). CHR '':'' \<notin> set f"
      by (rule gap_free [OF gap4(1)])
    have lastq: "last (gap hs (ts @ [q])) = q" by (simp add: last_gap)
    have bl: "butlast (gap hs (ts @ [q])) @ [?x (m div 65536 mod 65536), ?x (m mod 65536)]
        = gap hs (ts @ [?x (m div 65536 mod 65536), ?x (m mod 65536)])"
      by (rule butlast_gap_snoc) simp
    have "3 \<le> length (gap hs (ts @ [q]))" by (rule gap_length_ge3)
    then have "ipv6_int_from_string s
        = hextets_to_int (gap hs (ts @ [?x (m div 65536 mod 65536), ?x (m mod 65536)]))"
      unfolding s using free lastq dotted_quad_chars(4) [OF gap4(3)] m bl
      by (subst ipv6_int_from_fields) simp_all
    moreover have "hextets_to_int
        (gap hs (ts @ [?x (m div 65536 mod 65536), ?x (m mod 65536)])) \<noteq> None"
      by (rule hextets_to_int_gap) (simp_all add: gap4(1,2,4) hextet_hex_str)
    ultimately show ?thesis by simp
  qed
qed

lemma gap_ends_with_two:
  assumes eq: "bs @ [x, y] = gap hs ts'" and x: "x \<noteq> []" and y: "y \<noteq> []"
  shows "\<exists>ts. ts' = ts @ [x, y] \<and> bs = (if hs = [] then [[]] else hs) @ [[]] @ ts"
proof -
  let ?A = "if hs = [] then [[]] else hs"
  have ne: "ts' \<noteq> []"
  proof
    assume "ts' = []"
    then have "last (gap hs ts') = []" by (simp add: gap_def)
    with eq y show False by (metis last_snoc append_Cons append_Nil append_assoc)
  qed
  then have g: "gap hs ts' = ?A @ [[]] @ ts'" by (simp add: gap_def)
  from ne obtain t1 z where t1: "ts' = t1 @ [z]" by (cases ts' rule: rev_cases) auto
  have e1: "(bs @ [x]) @ [y] = (?A @ [[]] @ t1) @ [z]" using eq g t1 by simp
  then have zy: "z = y" and e2: "bs @ [x] = ?A @ [[]] @ t1" by simp_all
  have ne1: "t1 \<noteq> []"
  proof
    assume "t1 = []"
    with e2 have "bs @ [x] = ?A @ [[]]" by simp
    then have "x = []" by (metis last_snoc)
    with x show False by simp
  qed
  then obtain t2 z' where t2: "t1 = t2 @ [z']" by (cases t1 rule: rev_cases) auto
  from e2 t2 have "bs @ [x] = (?A @ [[]] @ t2) @ [z']" by simp
  then have "z' = x" and "bs = ?A @ [[]] @ t2" by simp_all
  with t1 t2 zy show ?thesis by simp
qed

lemma ipv6_accepted_text:
  assumes ok: "ipv6_int_from_string s \<noteq> None"
  shows "ipv6_text s"
proof -
  let ?fs = "split (CHR '':'') s"
  have s: "s = join (CHR '':'') ?fs" by (simp add: join_split)
  have len: "3 \<le> length ?fs"
    using ok by (auto simp: ipv6_int_from_string_def Let_def split: if_splits)
  have ne: "?fs \<noteq> []" by (rule split_not_Nil)
  show ?thesis
  proof (cases "CHR ''.'' \<in> set (last ?fs)")
    case False
    with ok have "hextets_to_int ?fs \<noteq> None"
      by (auto simp: ipv6_int_from_string_def Let_def split: if_splits)
    then consider "list_all hextet ?fs" "length ?fs = 8"
      | hs ts where "list_all hextet hs" "list_all hextet ts" "length hs + length ts \<le> 7"
          "?fs = gap hs ts"
      using hextets_to_int_shape by blast
    then show ?thesis
    proof cases
      case 1
      with s show ?thesis unfolding ipv6_text_def by blast
    next
      case 2
      from s 2(4) have "s = join (CHR '':'') hs @ ''::'' @ join (CHR '':'') ts"
        by (simp add: join_gap)
      with 2(1,2,3) show ?thesis unfolding ipv6_text_def by blast
    qed
  next
    case True
    define q where "q = last ?fs"
    define bs where "bs = butlast ?fs"
    have fs: "?fs = bs @ [q]" using ne by (simp add: q_def bs_def)
    from ok True obtain m where m: "IPv4Address q = Some m"
      and h: "hextets_to_int
        (bs @ [hex_str (m div 65536 mod 65536), hex_str (m mod 65536)]) \<noteq> None"
      by (auto simp: ipv6_int_from_string_def Let_def q_def bs_def
          split: if_splits option.splits)
    have dq: "dotted_quad q" using m IPv4Address_iff [of q] by simp
    let ?x = "hex_str (m div 65536 mod 65536)" and ?y = "hex_str (m mod 65536)"
    from h consider "list_all hextet (bs @ [?x, ?y])" "length (bs @ [?x, ?y]) = 8"
      | hs ts where "list_all hextet hs" "list_all hextet ts" "length hs + length ts \<le> 7"
          "bs @ [?x, ?y] = gap hs ts"
      using hextets_to_int_shape by blast
    then show ?thesis
    proof cases
      case 1
      then have "list_all hextet bs" and "length bs = 6" by simp_all
      moreover have "s = join (CHR '':'') (bs @ [q])" using s fs by simp
      ultimately show ?thesis using dq unfolding ipv6_text_def by blast
    next
      case 2
      from gap_ends_with_two [OF 2(4) hex_str_not_Nil hex_str_not_Nil]
      obtain ts0 where ts: "ts = ts0 @ [?x, ?y]"
        and bs: "bs = (if hs = [] then [[]] else hs) @ [[]] @ ts0"
        by blast
      have "?fs = gap hs (ts0 @ [q])" by (simp add: fs bs gap_def)
      with s have "s = join (CHR '':'') hs @ ''::'' @ join (CHR '':'') (ts0 @ [q])"
        by (simp add: join_gap)
      moreover have "list_all hextet ts0" using 2(2) ts by simp
      moreover have "length hs + length ts0 \<le> 5" using 2(3) ts by simp
      ultimately show ?thesis using 2(1) dq unfolding ipv6_text_def by blast
    qed
  qed
qed

lemma ipv6_int_from_string_iff: "ipv6_int_from_string s \<noteq> None \<longleftrightarrow> ipv6_text s"
  using ipv6_accepted_text ipv6_text_accepted by blast

section \<open>Zone identifiers and the validator\<close>

lemma ipv6_text_chars:
  assumes "ipv6_text s"
  shows "CHR ''/'' \<notin> set s" and "CHR ''%'' \<notin> set s"
proof -
  have j: "c \<notin> set (join (CHR '':'') fs)"
    if "c \<noteq> CHR '':''" and "\<forall>f \<in> set fs. c \<notin> set f" for c fs
    using that set_join [of "CHR '':''" fs] by auto
  have hx: "\<forall>f \<in> set hs. CHR ''/'' \<notin> set f \<and> CHR ''%'' \<notin> set f"
    if "list_all hextet hs" for hs
    using that hextet_free by (auto simp: list_all_iff)
  from assms consider
    (full) hs where "list_all hextet hs" "s = join (CHR '':'') hs"
  | (full4) hs q where "list_all hextet hs" "dotted_quad q" "s = join (CHR '':'') (hs @ [q])"
  | (gap) hs ts where "list_all hextet hs" "list_all hextet ts"
      "s = join (CHR '':'') hs @ ''::'' @ join (CHR '':'') ts"
  | (gap4) hs ts q where "list_all hextet hs" "list_all hextet ts" "dotted_quad q"
      "s = join (CHR '':'') hs @ ''::'' @ join (CHR '':'') (ts @ [q])"
    unfolding ipv6_text_def by blast
  then have "CHR ''/'' \<notin> set s \<and> CHR ''%'' \<notin> set s"
  proof cases
    case full
    then show ?thesis using hx [OF full(1)] by (simp add: j)
  next
    case full4
    then show ?thesis
      using hx [OF full4(1)] dotted_quad_chars(1,3) [OF full4(2)] by (simp add: j)
  next
    case gap
    then show ?thesis using hx [OF gap(1)] hx [OF gap(2)] by (simp add: j)
  next
    case gap4
    then show ?thesis
      using hx [OF gap4(1)] hx [OF gap4(2)] dotted_quad_chars(1,3) [OF gap4(3)]
      by (simp add: j)
  qed
  then show "CHR ''/'' \<notin> set s" and "CHR ''%'' \<notin> set s" by simp_all
qed

lemma split_scope_id_plain: "CHR ''%'' \<notin> set s \<Longrightarrow> split_scope_id s = Some s"
  by (simp add: split_scope_id_def Let_def dropWhile_eq_Nil_conv takeWhile_eq_all_conv)

lemma split_scope_id_zone:
  assumes "CHR ''%'' \<notin> set a"
  shows "split_scope_id (a @ ''%'' @ z)
           = (if z = [] \<or> CHR ''%'' \<in> set z then None else Some a)"
proof -
  have e: "a @ ''%'' @ z = a @ CHR ''%'' # z" by simp
  have d: "dropWhile (\<lambda>c. c \<noteq> CHR ''%'') (a @ CHR ''%'' # z) = CHR ''%'' # z"
    using assms by (subst dropWhile_append2) auto
  have t: "takeWhile (\<lambda>c. c \<noteq> CHR ''%'') (a @ CHR ''%'' # z) = a"
    using assms by (subst takeWhile_append2) auto
  show ?thesis
    unfolding split_scope_id_def e Let_def d t by simp
qed

lemma IPv6Address_iff: "IPv6Address s \<noteq> None \<longleftrightarrow> ipv6_text s \<or> scoped_ipv6_text s"
proof
  assume ok: "IPv6Address s \<noteq> None"
  then have slash: "CHR ''/'' \<notin> set s" by (auto simp: IPv6Address_def split: if_splits)
  let ?a = "takeWhile (\<lambda>c. c \<noteq> CHR ''%'') s" and ?r = "dropWhile (\<lambda>c. c \<noteq> CHR ''%'') s"
  from ok slash obtain a where sc: "split_scope_id s = Some a"
    and p: "ipv6_int_from_string a \<noteq> None"
    by (auto simp: IPv6Address_def split: option.splits)
  from sc have a: "a = ?a" by (auto simp: split_scope_id_def Let_def split: if_splits)
  have t: "ipv6_text a" using p by (simp only: ipv6_int_from_string_iff)
  show "ipv6_text s \<or> scoped_ipv6_text s"
  proof (cases "?r = []")
    case True
    then have "?a = s" by (metis takeWhile_dropWhile_id append_Nil2)
    with a t show ?thesis by simp
  next
    case False
    then obtain z where r: "?r = CHR ''%'' # z"
      using hd_dropWhile [of "\<lambda>c. c \<noteq> CHR ''%''" s] by (cases ?r) auto
    from sc False r have z: "z \<noteq> []" "CHR ''%'' \<notin> set z"
      by (auto simp: split_scope_id_def Let_def split: if_splits)
    have s: "s = a @ ''%'' @ z"
      using takeWhile_dropWhile_id [of "\<lambda>c. c \<noteq> CHR ''%''" s] r a by simp
    with slash have "CHR ''/'' \<notin> set z" by auto
    with s t z show ?thesis unfolding scoped_ipv6_text_def by blast
  qed
next
  assume "ipv6_text s \<or> scoped_ipv6_text s"
  then consider "ipv6_text s"
    | a z where "s = a @ ''%'' @ z" "ipv6_text a" "z \<noteq> []" "CHR ''%'' \<notin> set z"
        "CHR ''/'' \<notin> set z"
    unfolding scoped_ipv6_text_def by blast
  then show "IPv6Address s \<noteq> None"
  proof cases
    case 1
    then show ?thesis
      using ipv6_text_chars [OF 1] ipv6_text_accepted [OF 1]
      by (simp add: IPv6Address_def split_scope_id_plain)
  next
    case 2
    have "CHR ''/'' \<notin> set s" using ipv6_text_chars(1) [OF 2(2)] 2(1,5) by simp
    moreover have "split_scope_id s = Some a"
      unfolding 2(1) using ipv6_text_chars(2) [OF 2(2)] 2(3,4)
      by (subst split_scope_id_zone) simp_all
    ultimately show ?thesis
      using ipv6_text_accepted [OF 2(2)] by (simp add: IPv6Address_def)
  qed
qed

lemma validate_ip_address_literal:
  "validate_ip_address s = Inr (address_literal s \<or> scoped_ipv6_text s)"
proof -
  have "validate_ip_address s = Inr (IPv4Address s \<noteq> None \<or> IPv6Address s \<noteq> None)"
    by (simp add: validate_ip_address_def ip_address_def split: option.splits)
  then show ?thesis by (simp only: IPv4Address_iff IPv6Address_iff address_literal_def disj_assoc)
qed

lemma not_address_literal: "CHR ''%'' \<in> set s \<Longrightarrow> \<not> address_literal s"
  using dotted_quad_chars(3) [of s] ipv6_text_chars(2) [of s]
  by (auto simp: address_literal_def)

lemma str_nat_8: "str_nat 8 = ''8''"
  by code_simp

lemma dotted_quad_8888: "dotted_quad ''8.8.8.8''"
proof -
  have "dec_octet ''8''"
    unfolding dec_octet_def by (rule exI [of _ 8]) (simp add: str_nat_8)
  moreover have "''8.8.8.8'' = ''8'' @ ''.'' @ ''8'' @ ''.'' @ ''8'' @ ''.'' @ ''8''" by simp
  ultimately show ?thesis unfolding dotted_quad_def by blast
qed

lemma ipv6_text_fe80_1: "ipv6_text ''fe80::1''"
proof -
  have "list_all hextet [''fe80'']" and "list_all hextet [''1'']"
    by (simp_all add: hextet_def is_hex_digit_def)
  moreover have "length [''fe80''] + length [''1''] \<le> 7" by simp
  moreover have "''fe80::1'' = join (CHR '':'') [''fe80''] @ ''::'' @ join (CHR '':'') [''1'']"
    by simp
  ultimately show ?thesis unfolding ipv6_text_def by blast
qed

lemma scoped_fe80_1: "z \<noteq> [] \<Longrightarrow> CHR ''%'' \<notin> set z \<Longrightarrow> CHR ''/'' \<notin> set z \<Longrightarrow>
    scoped_ipv6_text (''fe80::1%'' @ z)"
proof -
  assume "z \<noteq> []" "CHR ''%'' \<notin> set z" "CHR ''/'' \<notin> set z"
  moreover have "''fe80::1%'' @ z = ''fe80::1'' @ ''%'' @ z" by simp
  ultimately show ?thesis
    unfolding scoped_ipv6_text_def using ipv6_text_fe80_1 by blast
qed

lemma validate_empty: "validate_ip_address [] = Inr False"
  by (simp add: validate_ip_address_def ip_address_def IPv4Address_def ipv4_int_from_string_def
      IPv6Address_def split_scope_id_def ipv6_int_from_string_def)

lemma validate_hostname: "validate_ip_address ''example.com'' = Inr False"
  by (simp add: validate_ip_address_def ip_address_def IPv4Address_def ipv4_int_from_string_def
      IPv6Address_def split_scope_id_def ipv6_int_from_string_def)

lemma validate_octet_256: "validate_ip_address ''256.1.1.1'' = Inr False"
  by (simp add: validate_ip_address_def ip_address_def IPv4Address_def ipv4_int_from_string_def
      parse_octet_def is_digit_def nat_of_digits_def digit_val_def
      IPv6Address_def split_scope_id_def ipv6_int_from_string_def)

lemma validate_long_hextet: "validate_ip_address ''12345::'' = Inr False"
  by (simp add: validate_ip_address_def ip_address_def IPv4Address_def ipv4_int_from_string_def
      IPv6Address_def split_scope_id_def ipv6_int_from_string_def hextets_to_int_def
      skip_indices_def parse_hextet_def is_hex_digit_def upt_conv_Cons)

text \<open>
  C8, as stated, fails: the validator answers \<^verbatim>\<open>True\<close> on strings that are neither a
  dotted quad nor a colon-hex text. \<^verbatim>\<open>ipaddress\<close> takes an IPv6 text followed by \<^verbatim>\<open>%\<close>
  and any scope identifier: an interface name as in \<^verbatim>\<open>fe80::1%eth0\<close>, and also
  spaces and punctuation as in \<^verbatim>\<open>fe80::1%a b!\<close>.
\<close>

theorem validator_accepts_scope_identifiers:
  "validate_ip_address ''fe80::1%eth0'' = Inr True \<and>
   \<not> address_literal ''fe80::1%eth0'' \<and>
   validate_ip_address ''fe80::1%a b!'' = Inr True \<and>
   \<not> address_literal ''fe80::1%a b!''"
proof -
  have a: "scoped_ipv6_text ''fe80::1%eth0''"
    using scoped_fe80_1 [of "''eth0''"] by simp
  have b: "scoped_ipv6_text ''fe80::1%a b!''"
    using scoped_fe80_1 [of "''a b!''"] by simp
  have c: "\<not> address_literal ''fe80::1%eth0''" "\<not> address_literal ''fe80::1%a b!''"
    by (rule not_address_literal, simp)+
  from a b c show ?thesis
    by (simp only: validate_ip_address_literal) simp
qed

text \<open>
  C8, amended. The validator never raises, and it answers \<^verbatim>\<open>True\<close> exactly on the
  dotted quads (four decimal numbers from 0 to 255 without leading zeros), on the IPv6
  texts (eight hextets, the last two possibly as a dotted quad, one run of hextets
  possibly compressed to \<^verbatim>\<open>::\<close>), and on an IPv6 text followed by \<^verbatim>\<open>%\<close> and a
  non-empty scope identifier without \<^verbatim>\<open>%\<close> and \<^verbatim>\<open>/\<close>. On every other string, the
  empty string, a host name, an octet out of range or a malformed hextet among them,
  it answers \<^verbatim>\<open>False\<close>.
\<close>

theorem validate_accepts_literals_and_scoped:
  "validate_ip_address s = Inr (dotted_quad s \<or> ipv6_text s \<or> scoped_ipv6_text s)"
  using validate_ip_address_literal [of s] by (simp only: address_literal_def disj_assoc)

theorem validate_accepts_literals_and_scoped_witness:
  "validate_ip_address ''8.8.8.8'' = Inr True \<and>
   validate_ip_address ''fe80::1'' = Inr True \<and>
   validate_ip_address [] = Inr False \<and>
   \<not> (dotted_quad [] \<or> ipv6_text [] \<or> scoped_ipv6_text []) \<and>
   validate_ip_address ''example.com'' = Inr False \<and>
   \<not> (dotted_quad ''example.com'' \<or> ipv6_text ''example.com''
      \<or> scoped_ipv6_text ''example.com'') \<and>
   validate_ip_address ''256.1.1.1'' = Inr False \<and>
   \<not> (dotted_quad ''256.1.1.1'' \<or> ipv6_text ''256.1.1.1'' \<or> scoped_ipv6_text ''256.1.1.1'') \<and>
   validate_ip_address ''12345::'' = Inr False \<and>
   \<not> (dotted_quad ''12345::'' \<or> ipv6_text ''12345::'' \<or> scoped_ipv6_text ''12345::'')"
  using validate_accepts_literals_and_scoped [of "''8.8.8.8''"]
    validate_accepts_literals_and_scoped [of "''fe80::1''"]
    validate_accepts_literals_and_scoped [of "[]"]
    validate_accepts_literals_and_scoped [of "''example.com''"]
    validate_accepts_literals_and_scoped [of "''256.1.1.1''"]
    validate_accepts_literals_and_scoped [of "''12345::''"]
    dotted_quad_8888 ipv6_text_fe80_1 validate_empty validate_hostname
    validate_octet_256 validate_long_hextet
  by (simp del: split.simps)

end
